theory Spec2Isabelle
  imports Complex_Main "HOL-Library.Sublist"
begin

section \<open>Python strings\<close>

text \<open>
  A Python \<open>str\<close> is modelled as a \<open>string\<close> whose characters are the code points
  below 256, one \<open>char\<close> per code point, so that \<open>length\<close> is Python's \<open>len\<close>.
  \<open>w in s\<close> on strings is the contiguous-substring test, \<open>sublist w s\<close>.
\<close>

abbreviation str_in :: "string \<Rightarrow> string \<Rightarrow> bool" where
  "str_in w s \<equiv> sublist w s"

text \<open>\<open>str.isspace\<close> on the code points below 256.\<close>

definition is_space :: "char \<Rightarrow> bool" where
  "is_space c =
     (let n = (of_char c :: nat)
      in (9 \<le> n \<and> n \<le> 13) \<or> (28 \<le> n \<and> n \<le> 32) \<or> n = 133 \<or> n = 160)"

text \<open>
  \<open>str.lower\<close>: the letters A to Z and the upper-case letters of Latin-1. On the code
  points below 256 it maps each character to one character. Beyond them it does not keep
  the length (U+0130 becomes two code points), so nothing below bounds the length of a
  lower-cased text.
\<close>

definition lower_char :: "char \<Rightarrow> char" where
  "lower_char c =
     (let n = (of_char c :: nat)
      in if (65 \<le> n \<and> n \<le> 90) \<or> (192 \<le> n \<and> n \<le> 222 \<and> n \<noteq> 215)
         then char_of (n + 32) else c)"

definition lower :: "string \<Rightarrow> string" where
  "lower s = map lower_char s"

definition lstrip :: "string \<Rightarrow> string" where
  "lstrip s = dropWhile is_space s"

definition rstrip :: "string \<Rightarrow> string" where
  "rstrip s = rev (dropWhile is_space (rev s))"

definition strip :: "string \<Rightarrow> string" where
  "strip s = rstrip (lstrip s)"

text \<open>The exceptions that the code can raise.\<close>

datatype py_error = ZeroDivisionError | IndexError | UnicodeEncodeError

text \<open>
  \<open>print(text)\<close> writes the text and a newline to \<open>sys.stdout\<close>, whose encoder is strict:
  it raises UnicodeEncodeError on a character that the encoding of the stream does not
  have. The stream is outside the repository: \<open>enc c\<close> says that it can encode \<open>c\<close>.
\<close>

definition can_print :: "(char \<Rightarrow> bool) \<Rightarrow> string \<Rightarrow> bool" where
  "can_print enc text = list_all enc (text @ [CHR 0x0A])"

definition py_print :: "(char \<Rightarrow> bool) \<Rightarrow> string \<Rightarrow> py_error + unit" where
  "py_print enc text = (if can_print enc text then Inr () else Inl UnicodeEncodeError)"

text \<open>One statement after another: an exception ends the sequence.\<close>

definition and_then :: "py_error + 'a \<Rightarrow> ('a \<Rightarrow> py_error + 'b) \<Rightarrow> py_error + 'b" where
  "and_then r f = (case r of Inl e \<Rightarrow> Inl e | Inr x \<Rightarrow> f x)"

text \<open>\<open>any(w in s for w in ws)\<close>\<close>

definition any_in :: "string list \<Rightarrow> string \<Rightarrow> bool" where
  "any_in ws s = list_ex (\<lambda>w. str_in w s) ws"

section \<open>The query engine (chatbot.py)\<close>

text \<open>
  The schema is a Python dict from lower-cased column name to declared type; its keys are
  iterated in insertion order, so it is an association list here.
\<close>

type_synonym schema = "(string \<times> string) list"

definition table_name :: string where
  "table_name = ''investment_projects''"

text \<open>The SQL literal for the empty string: two apostrophes.\<close>

definition sql_empty :: string where
  "sql_empty = [CHR 0x27, CHR 0x27]"

definition generate_count_query :: "string \<Rightarrow> string" where
  "generate_count_query question =
     (let base_query = ''SELECT COUNT(*) as count FROM '' @ table_name
      in if str_in ''company'' question then
           (if str_in ''by company'' question \<or> str_in ''per company'' question
            then ''SELECT company, COUNT(*) as count FROM '' @ table_name
                 @ '' WHERE company IS NOT NULL AND company != '0' AND company != '' @ sql_empty
                 @ '' GROUP BY company ORDER BY count DESC''
            else base_query
                 @ '' WHERE company IS NOT NULL AND company != '0' AND company != '' @ sql_empty)
         else if str_in ''region'' question then
           (if str_in ''by region'' question \<or> str_in ''per region'' question
            then ''SELECT region, COUNT(*) as count FROM '' @ table_name
                 @ '' WHERE region IS NOT NULL AND region != '0' AND region != '' @ sql_empty
                 @ '' GROUP BY region ORDER BY count DESC''
            else base_query
                 @ '' WHERE region IS NOT NULL AND region != '0' AND region != '' @ sql_empty)
         else if str_in ''project'' question then base_query
         else if str_in ''customer'' question then
           (if str_in ''by customer'' question
            then ''SELECT customer, COUNT(*) as count FROM '' @ table_name
                 @ '' WHERE customer IS NOT NULL AND customer != '0' AND customer != '' @ sql_empty
                 @ '' GROUP BY customer ORDER BY count DESC''
            else base_query
                 @ '' WHERE customer IS NOT NULL AND customer != '0' AND customer != '' @ sql_empty)
         else base_query)"

text \<open>
  \<open>[col for col in self.schema.keys() if 'budget' in col or 'total' in col or 'value' in col]\<close>
\<close>

definition budget_columns :: "schema \<Rightarrow> string list" where
  "budget_columns sch =
     filter (\<lambda>col. str_in ''budget'' col \<or> str_in ''total'' col \<or> str_in ''value'' col)
       (map fst sch)"

definition generate_sum_query :: "schema \<Rightarrow> string \<Rightarrow> string" where
  "generate_sum_query sch question =
     (case budget_columns sch of
        main_budget_col # _ \<Rightarrow>
          if str_in ''by company'' question
          then ''SELECT company, SUM(CAST('' @ main_budget_col @ '' AS REAL)) as total FROM ''
               @ table_name
               @ '' WHERE company IS NOT NULL AND company != '0' AND company != '' @ sql_empty
               @ '' GROUP BY company ORDER BY total DESC''
          else if str_in ''by region'' question
          then ''SELECT region, SUM(CAST('' @ main_budget_col @ '' AS REAL)) as total FROM ''
               @ table_name
               @ '' WHERE region IS NOT NULL AND region != '0' AND region != '' @ sql_empty
               @ '' GROUP BY region ORDER BY total DESC''
          else ''SELECT SUM(CAST('' @ main_budget_col @ '' AS REAL)) as total FROM '' @ table_name
      | [] \<Rightarrow> ''SELECT COUNT(*) as count FROM '' @ table_name)"

definition generate_avg_query :: "schema \<Rightarrow> string \<Rightarrow> string" where
  "generate_avg_query sch question =
     (case budget_columns sch of
        main_budget_col # _ \<Rightarrow>
          if str_in ''by company'' question
          then ''SELECT Company, AVG(CAST('' @ main_budget_col @ '' AS REAL)) as average FROM ''
               @ table_name
               @ '' WHERE Company IS NOT NULL AND Company != '0' GROUP BY Company ORDER BY average DESC''
          else if str_in ''by region'' question
          then ''SELECT Region, AVG(CAST('' @ main_budget_col @ '' AS REAL)) as average FROM ''
               @ table_name
               @ '' WHERE Region IS NOT NULL AND Region != '0' GROUP BY Region ORDER BY average DESC''
          else ''SELECT AVG(CAST('' @ main_budget_col @ '' AS REAL)) as average FROM '' @ table_name
      | [] \<Rightarrow> ''SELECT COUNT(*) as count FROM '' @ table_name)"

definition generate_select_query :: "string \<Rightarrow> string" where
  "generate_select_query question =
     (if str_in ''company'' question
      then ''SELECT DISTINCT company FROM '' @ table_name
           @ '' WHERE company IS NOT NULL AND company != '0' AND company != '' @ sql_empty
           @ '' ORDER BY company''
      else if str_in ''region'' question
      then ''SELECT DISTINCT region FROM '' @ table_name
           @ '' WHERE region IS NOT NULL AND region != '0' AND region != '' @ sql_empty
           @ '' ORDER BY region''
      else if str_in ''customer'' question
      then ''SELECT DISTINCT customer FROM '' @ table_name
           @ '' WHERE customer IS NOT NULL AND customer != '0' AND customer != '' @ sql_empty
           @ '' ORDER BY customer''
      else if str_in ''plant'' question
      then ''SELECT DISTINCT plant FROM '' @ table_name
           @ '' WHERE plant IS NOT NULL AND plant != '0' AND plant != '' @ sql_empty
           @ '' ORDER BY plant''
      else ''SELECT * FROM '' @ table_name @ '' LIMIT 10'')"

definition generate_max_query :: "schema \<Rightarrow> string \<Rightarrow> string" where
  "generate_max_query sch question =
     (case budget_columns sch of
        main_budget_col # _ \<Rightarrow>
          ''SELECT *, MAX(CAST('' @ main_budget_col @ '' AS REAL)) as max_value FROM '' @ table_name
      | [] \<Rightarrow> ''SELECT * FROM '' @ table_name @ '' LIMIT 1'')"

definition generate_min_query :: "schema \<Rightarrow> string \<Rightarrow> string" where
  "generate_min_query sch question =
     (case budget_columns sch of
        main_budget_col # _ \<Rightarrow>
          ''SELECT *, MIN(CAST('' @ main_budget_col @ '' AS REAL)) as min_value FROM '' @ table_name
          @ '' WHERE CAST('' @ main_budget_col @ '' AS REAL) > 0''
      | [] \<Rightarrow> ''SELECT * FROM '' @ table_name @ '' LIMIT 1'')"

definition generate_general_query :: "string \<Rightarrow> string" where
  "generate_general_query question = ''SELECT * FROM '' @ table_name @ '' LIMIT 10''"

definition natural_language_to_sql :: "schema \<Rightarrow> string \<Rightarrow> string" where
  "natural_language_to_sql sch question0 =
     (let question = strip (lower question0)
      in if any_in [''count'', ''how many'', ''number of''] question
           then generate_count_query question
         else if any_in [''total'', ''sum'', ''amount''] question
           then generate_sum_query sch question
         else if any_in [''average'', ''avg'', ''mean''] question
           then generate_avg_query sch question
         else if any_in [''list'', ''show'', ''display'', ''get''] question
           then generate_select_query question
         else if any_in [''maximum'', ''max'', ''highest'', ''largest''] question
           then generate_max_query sch question
         else if any_in [''minimum'', ''min'', ''lowest'', ''smallest''] question
           then generate_min_query sch question
         else generate_general_query question)"

text \<open>
  The store is outside the repository: it is a parameter, a function from the SQL text to
  either the exception that \<open>pd.read_sql_query\<close> raises (\<open>Inl\<close>) or the frame it returns.
\<close>

record 'v data_frame =
  df_columns :: "string list"
  df_rows :: "'v list list"

type_synonym 'v store = "string \<Rightarrow> string + 'v data_frame"

text \<open>\<open>pd.DataFrame()\<close>\<close>

definition empty_frame :: "'v data_frame" where
  "empty_frame = \<lparr>df_columns = [], df_rows = []\<rparr>"

text \<open>\<open>DataFrame.empty\<close>: one of the two axes has length 0.\<close>

definition df_empty :: "'v data_frame \<Rightarrow> bool" where
  "df_empty df = (df_columns df = [] \<or> df_rows df = [])"

text \<open>
  The handler of \<open>execute_query\<close> prints the message of the exception before it returns
  the empty frame; an exception of that print leaves the handler.
\<close>

definition execute_query :: "(char \<Rightarrow> bool) \<Rightarrow> 'v store \<Rightarrow> string \<Rightarrow> py_error + 'v data_frame" where
  "execute_query enc st sql =
     (case st sql of
        Inr df \<Rightarrow> Inr df
      | Inl e \<Rightarrow>
          and_then (py_print enc (''Error executing query: '' @ e)) (\<lambda>_. Inr empty_frame))"

record 'v answer =
  question :: string
  sql_query :: string
  results :: "'v data_frame"
  success :: bool

text \<open>
  \<open>ask_question\<close>, with its prints, which stand outside any handler. The text that
  \<open>result_df.to_string(index=False)\<close> renders is pandas' business: \<open>to_string\<close> is a
  parameter.
\<close>

definition ask_question ::
  "(char \<Rightarrow> bool) \<Rightarrow> ('v data_frame \<Rightarrow> string) \<Rightarrow> 'v store \<Rightarrow> schema \<Rightarrow> string
     \<Rightarrow> py_error + 'v answer" where
  "ask_question enc to_string st sch q =
     and_then (py_print enc (CHR 0x0A # ''Question: '' @ q)) (\<lambda>_.
     and_then (py_print enc (replicate 50 CHR ''-'')) (\<lambda>_.
     let sql = natural_language_to_sql sch q in
     and_then (py_print enc (''Generated SQL: '' @ sql)) (\<lambda>_.
     and_then (py_print enc (replicate 50 CHR ''-'')) (\<lambda>_.
     and_then (execute_query enc st sql) (\<lambda>result_df.
     if \<not> df_empty result_df
     then and_then (py_print enc ''Results:'') (\<lambda>_.
          and_then (py_print enc (to_string result_df)) (\<lambda>_.
          Inr \<lparr>question = q, sql_query = sql, results = result_df, success = True\<rparr>))
     else and_then (py_print enc ''No results found or query failed.'') (\<lambda>_.
          Inr \<lparr>question = q, sql_query = sql, results = empty_frame, success = False\<rparr>))))))"

text \<open>
  The texts that a call of \<open>ask_question\<close> prints when no print fails, in their order: the
  question, the SQL, the message of the store's exception if it raised, and the results or
  the notice that there are none.
\<close>

definition printed_texts ::
  "('v data_frame \<Rightarrow> string) \<Rightarrow> 'v store \<Rightarrow> schema \<Rightarrow> string \<Rightarrow> string list" where
  "printed_texts to_string st sch q =
     [CHR 0x0A # ''Question: '' @ q, replicate 50 CHR ''-'',
      ''Generated SQL: '' @ natural_language_to_sql sch q, replicate 50 CHR ''-'']
     @ (case st (natural_language_to_sql sch q) of
          Inl e \<Rightarrow> [''Error executing query: '' @ e, ''No results found or query failed.'']
        | Inr df \<Rightarrow>
            if \<not> df_empty df then [''Results:'', to_string df]
            else [''No results found or query failed.''])"

subsection \<open>The intents of the specification\<close>

text \<open>
  The specification names the branches of \<open>natural_language_to_sql\<close> as intents, chosen by
  the first keyword group, in a fixed order, that has a word occurring in the question.
  These definitions follow the specification's words; they are compared with the code below.
\<close>

datatype intent =
  Count_Intent | Sum_Intent | Avg_Intent | Select_Intent | Max_Intent | Min_Intent
  | Generic_Intent

definition keyword_groups :: "(intent \<times> string list) list" where
  "keyword_groups =
     [(Count_Intent, [''count'', ''how many'', ''number of'']),
      (Sum_Intent, [''total'', ''sum'', ''amount'']),
      (Avg_Intent, [''average'', ''avg'', ''mean'']),
      (Select_Intent, [''list'', ''show'', ''display'', ''get'']),
      (Max_Intent, [''maximum'', ''max'', ''highest'', ''largest'']),
      (Min_Intent, [''minimum'', ''min'', ''lowest'', ''smallest''])]"

definition classify_intent :: "string \<Rightarrow> intent" where
  "classify_intent q =
     (case find (\<lambda>g. any_in (snd g) q) keyword_groups of
        Some g \<Rightarrow> fst g
      | None \<Rightarrow> Generic_Intent)"

definition intent_of :: "string \<Rightarrow> intent" where
  "intent_of question0 = classify_intent (strip (lower question0))"

fun query_for :: "schema \<Rightarrow> intent \<Rightarrow> string \<Rightarrow> string" where
  "query_for sch Count_Intent q = generate_count_query q"
| "query_for sch Sum_Intent q = generate_sum_query sch q"
| "query_for sch Avg_Intent q = generate_avg_query sch q"
| "query_for sch Select_Intent q = generate_select_query q"
| "query_for sch Max_Intent q = generate_max_query sch q"
| "query_for sch Min_Intent q = generate_min_query sch q"
| "query_for sch Generic_Intent q = generate_general_query q"

definition count_query :: string where
  "count_query = ''SELECT COUNT(*) as count FROM investment_projects''"

definition budget_like :: "string \<Rightarrow> bool" where
  "budget_like col = (str_in ''budget'' col \<or> str_in ''total'' col \<or> str_in ''value'' col)"

section \<open>The ingestion pipeline (clean_and_update_headers.py)\<close>

subsection \<open>Cells, sheets and more of Python's string functions\<close>

text \<open>
  A cell of the frame read with \<open>header=None\<close> is either missing (\<open>pd.isna\<close> holds; pandas
  stores the float NaN) or a value, kept here by its text form \<open>str(val)\<close>.
\<close>

datatype cell = NA | Text string

fun notna :: "cell \<Rightarrow> bool" where
  "notna NA = False"
| "notna (Text s) = True"

text \<open>\<open>str(val)\<close>, also what \<open>astype(str)\<close> stores.\<close>

fun str_cell :: "cell \<Rightarrow> string" where
  "str_cell NA = ''nan''"
| "str_cell (Text s) = s"

text \<open>
  A frame has \<open>len(df.columns)\<close> columns and \<open>len(df)\<close> rows; every row of a frame has one
  cell per column.
\<close>

record sheet =
  ncols :: nat
  rws :: "cell list list"

definition wf_sheet :: "sheet \<Rightarrow> bool" where
  "wf_sheet df = list_all (\<lambda>r. length r = ncols df) (rws df)"

text \<open>\<open>sep.join(xs)\<close>\<close>

fun join :: "string \<Rightarrow> string list \<Rightarrow> string" where
  "join sep [] = []"
| "join sep [x] = x"
| "join sep (x # y # ys) = x @ sep @ join sep (y # ys)"

text \<open>\<open>s.split()\<close>: the maximal runs of non-whitespace characters; \<open>cur\<close> is the run being read.\<close>

fun split_ws :: "string \<Rightarrow> string \<Rightarrow> string list" where
  "split_ws cur [] = (if cur = [] then [] else [cur])"
| "split_ws cur (c # cs) =
     (if is_space c then (if cur = [] then split_ws [] cs else cur # split_ws [] cs)
      else split_ws (cur @ [c]) cs)"

text \<open>\<open>s.split(sep)\<close> for a separator of one character: empty pieces are kept.\<close>

fun split_on :: "char \<Rightarrow> string \<Rightarrow> string \<Rightarrow> string list" where
  "split_on sep cur [] = [cur]"
| "split_on sep cur (c # cs) =
     (if c = sep then cur # split_on sep [] cs else split_on sep (cur @ [c]) cs)"

text \<open>\<open>s.replace(old, new)\<close> where \<open>old\<close> is one character.\<close>

definition replace :: "char \<Rightarrow> string \<Rightarrow> string \<Rightarrow> string" where
  "replace old new s = concat (map (\<lambda>c. if c = old then new else [c]) s)"

text \<open>\<open>str(n)\<close> of a non-negative integer, as the f-strings print a column index or counter.\<close>

definition digit_char :: "nat \<Rightarrow> char" where
  "digit_char d = char_of (48 + d)"

fun str_nat :: "nat \<Rightarrow> string" where
  "str_nat n = (if n < 10 then [digit_char n] else str_nat (n div 10) @ [digit_char (n mod 10)])"

declare str_nat.simps [simp del]

text \<open>
  \<open>row_text\<close>: the lower-cased text forms of the cells that are not missing, joined by a space.
\<close>

definition row_text :: "cell list \<Rightarrow> string" where
  "row_text row = join '' '' (map (\<lambda>val. lower (str_cell val)) (filter notna row))"

subsection \<open>find_data_boundaries\<close>

definition header_indicators :: "string \<Rightarrow> (string \<times> bool) list" where
  "header_indicators t =
     [(''id'', str_in ''id'' t \<and> (str_in ''change'' t \<or> str_in ''delete'' t)),
      (''company'', str_in ''company'' t),
      (''region'', str_in ''region'' t),
      (''plant'', str_in ''plant'' t),
      (''customer'', str_in ''customer'' t),
      (''description'', str_in ''description'' t),
      (''investment'', str_in ''investment'' t),
      (''budget'', str_in ''budget'' t)]"

text \<open>\<open>sum(header_indicators.values())\<close>\<close>

definition header_score :: "cell list \<Rightarrow> nat" where
  "header_score row = length (filter snd (header_indicators (row_text row)))"

text \<open>The first loop: the first row, in the order of the indices given, that scores 4 or more.\<close>

fun scan_header :: "cell list list \<Rightarrow> nat list \<Rightarrow> nat option" where
  "scan_header rs [] = None"
| "scan_header rs (i # is) =
     (if header_score (rs ! i) \<ge> 4 then Some i else scan_header rs is)"

text \<open>
  The second loop, over the state \<open>(max_density, header_row)\<close>. The division raises
  ZeroDivisionError on a frame without columns. Python divides in double precision and
  compares with the double 0.3; the quotients of two naturals below \<open>2^50\<close> compare among
  themselves and with that double as the exact fractions compare with \<open>3/10\<close>, which is what
  the model computes.
\<close>

definition non_empty_count :: "cell list \<Rightarrow> nat" where
  "non_empty_count row = length (filter (\<lambda>val. notna val \<and> strip (str_cell val) \<noteq> []) row)"

fun density_loop :: "sheet \<Rightarrow> nat list \<Rightarrow> rat \<Rightarrow> nat option \<Rightarrow> py_error + (rat \<times> nat option)" where
  "density_loop df [] max_density header_row = Inr (max_density, header_row)"
| "density_loop df (i # is) max_density header_row =
     (if ncols df = 0 then Inl ZeroDivisionError
      else let density = of_nat (non_empty_count (rws df ! i)) / of_nat (ncols df)
           in if density > max_density \<and> density > 3 / 10
              then density_loop df is density (Some i)
              else density_loop df is max_density header_row)"

definition instruction_indicators :: "string list" where
  "instruction_indicators =
     [''mandatory'', ''optional'', ''select'', ''input'', ''formula'', ''linked'',
      ''default'', ''fill in'', ''do not add'', ''delete'', ''collumn'']"

definition is_instruction_row :: "cell list \<Rightarrow> bool" where
  "is_instruction_row row = any_in instruction_indicators (row_text row)"

text \<open>The third loop, over \<open>data_start_row\<close>; it breaks at the first row that is no instruction.\<close>

fun skip_instructions :: "cell list list \<Rightarrow> nat list \<Rightarrow> nat \<Rightarrow> nat" where
  "skip_instructions rs [] data_start_row = data_start_row"
| "skip_instructions rs (i # is) data_start_row =
     (if is_instruction_row (rs ! i) then skip_instructions rs is (i + 1) else data_start_row)"

definition find_data_start :: "sheet \<Rightarrow> nat \<Rightarrow> nat" where
  "find_data_start df header_row =
     (let data_start_row = header_row + 1
      in skip_instructions (rws df)
           [data_start_row ..< min (data_start_row + 10) (length (rws df))] data_start_row)"

definition find_data_boundaries :: "sheet \<Rightarrow> py_error + (nat \<times> nat)" where
  "find_data_boundaries df =
     (case scan_header (rws df) [0 ..< min 25 (length (rws df))] of
        Some header_row \<Rightarrow> Inr (header_row, find_data_start df header_row)
      | None \<Rightarrow>
          (case density_loop df [0 ..< min 15 (length (rws df))] 0 None of
             Inl e \<Rightarrow> Inl e
           | Inr (max_density, Some header_row) \<Rightarrow>
               Inr (header_row, find_data_start df header_row)
           | Inr (max_density, None) \<Rightarrow> Inr (8, find_data_start df 8)))"

subsection \<open>create_careful_headers\<close>

text \<open>The generic cleaning of a header text that no naming rule matches.\<close>

definition general_cleaning :: "nat \<Rightarrow> string \<Rightarrow> string" where
  "general_cleaning i header_str =
     (let clean_name = header_str;
          clean_name = replace CHR '' '' ''_'' (replace CHR ''-'' ''_'' (replace CHR ''/'' ''_'' clean_name));
          clean_name = replace CHR '']'' [] (replace CHR ''['' [] (replace CHR '')'' [] (replace CHR ''('' [] clean_name)));
          clean_name = replace (CHR 0x27) [] (replace (CHR 0x22) [] (replace (CHR 0x0D) ''_'' (replace (CHR 0x0A) ''_'' clean_name)));
          clean_name = replace CHR ''&'' ''and'' (replace CHR ''!'' [] (replace CHR ''?'' [] clean_name));
          clean_name = join ''_'' (filter (\<lambda>p. p \<noteq> []) (split_on CHR ''_'' [] clean_name));
          clean_name = (if length clean_name > 60 then take 60 clean_name else clean_name)
      in if clean_name = [] \<or> clean_name = ''_'' then ''column_'' @ str_nat i else clean_name)"

definition clean_name_of :: "nat \<Rightarrow> string list \<Rightarrow> cell \<Rightarrow> string" where
  "clean_name_of i used_names header =
     (if \<not> notna header \<or> strip (str_cell header) = [] then ''column_'' @ str_nat i
      else
        let header_str = strip (str_cell header);
            header_str = replace (CHR 0x0D) '' '' (replace (CHR 0x0A) '' '' header_str);
            header_str = join '' '' (split_ws [] header_str);
            header_lower = lower header_str
        in if str_in ''id'' header_lower
              \<and> (str_in ''change'' header_lower \<or> str_in ''delete'' header_lower
                   \<or> str_in ''add'' header_lower)
             then ''project_id''
           else if header_lower = ''company'' then ''company''
           else if header_lower = ''region'' then ''region''
           else if header_lower = ''plant'' then ''plant''
           else if header_lower = ''customer'' then ''customer''
           else if str_in ''cost center'' header_lower
             then (if ''cost_center'' \<notin> set used_names then ''cost_center''
                   else ''cost_center_'' @ str_nat i)
           else if str_in ''description'' header_lower
             then (if ''description'' \<notin> set used_names then ''description''
                   else ''description_'' @ str_nat i)
           else if str_in ''investment'' header_lower \<and> str_in ''category'' header_lower
             then ''investment_category''
           else if str_in ''budget'' header_lower \<or> str_in ''total'' header_lower
             then ''budget_'' @ str_nat i
           else if str_in ''april'' header_lower \<and> str_in ''2025'' header_lower
             then ''april_2025''
           else if str_in ''may'' header_lower \<and> str_in ''2025'' header_lower
             then ''may_2025''
           else general_cleaning i header_str)"

text \<open>
  The \<open>while final_name in used_names\<close> loop, over the state \<open>(final_name, counter)\<close>.
  It ends because the candidates \<open>base_1\<close>, \<open>base_2\<close>, ... are all different and
  \<open>used_names\<close> is finite; the decimal numerals are read back by \<open>nat_of_digits\<close>.
\<close>

function unique_name :: "string \<Rightarrow> string list \<Rightarrow> string \<Rightarrow> nat \<Rightarrow> string" where
  "unique_name base used_names final_name counter =
     (if final_name \<in> set used_names
      then unique_name base used_names (base @ ''_'' @ str_nat counter) (counter + 1)
      else final_name)"
  by pat_completeness auto

fun nat_of_digits :: "nat \<Rightarrow> string \<Rightarrow> nat" where
  "nat_of_digits acc [] = acc"
| "nat_of_digits acc (c # cs) = nat_of_digits (10 * acc + (of_char c - 48)) cs"

lemma nat_of_digits_append:
  "nat_of_digits acc (xs @ ys) = nat_of_digits (nat_of_digits acc xs) ys"
  by (induction xs arbitrary: acc) auto

lemma of_char_digit_char: "d < 10 \<Longrightarrow> (of_char (digit_char d) :: nat) = 48 + d"
  by (simp add: digit_char_def)

lemma nat_of_digits_str_nat: "nat_of_digits 0 (str_nat n) = n"
proof (induction n rule: str_nat.induct)
  case (1 n)
  show ?case
  proof (cases "n < 10")
    case True
    then show ?thesis
      by (subst str_nat.simps) (simp add: of_char_digit_char)
  next
    case False
    with 1 have "nat_of_digits 0 (str_nat (n div 10)) = n div 10" by simp
    with False show ?thesis
      by (subst str_nat.simps) (simp add: nat_of_digits_append of_char_digit_char)
  qed
qed

lemma str_nat_inj: "str_nat m = str_nat n \<Longrightarrow> m = n"
  by (metis nat_of_digits_str_nat)

lemma finite_taken: "finite {k. c \<le> k \<and> base @ ''_'' @ str_nat k \<in> set used}"
proof -
  have "inj (\<lambda>k. base @ ''_'' @ str_nat k)"
    by (auto simp: inj_def dest: str_nat_inj)
  then have "finite ((\<lambda>k. base @ ''_'' @ str_nat k) -` set used)"
    by (intro finite_vimageI) auto
  then show ?thesis
    by (rule rev_finite_subset) auto
qed

termination unique_name
proof (relation "measure (\<lambda>(base, used, final, c).
         2 * card {k. c \<le> k \<and> base @ ''_'' @ str_nat k \<in> set used}
         + (if final \<in> set used then 1 else 0))")
  show "wf (measure (\<lambda>(base, used, final, c).
         2 * card {k. c \<le> k \<and> base @ ''_'' @ str_nat k \<in> set used}
         + (if final \<in> set used then 1 else 0)))" by simp
next
  fix base :: string and used_names :: "string list" and final_name :: string and counter :: nat
  assume "final_name \<in> set used_names"
  let ?A = "{k. counter \<le> k \<and> base @ ''_'' @ str_nat k \<in> set used_names}"
  let ?B = "{k. counter + 1 \<le> k \<and> base @ ''_'' @ str_nat k \<in> set used_names}"
  have sub: "?B \<subseteq> ?A" by auto
  have le: "card ?B \<le> card ?A" by (rule card_mono[OF finite_taken sub])
  have "base @ ''_'' @ str_nat counter \<in> set used_names \<Longrightarrow> card ?B < card ?A"
  proof -
    assume m: "base @ ''_'' @ str_nat counter \<in> set used_names"
    have "counter \<in> ?A" and "counter \<notin> ?B" using m by auto
    with sub have "?B \<subset> ?A" by blast
    then show ?thesis by (rule psubset_card_mono[OF finite_taken])
  qed
  with le \<open>final_name \<in> set used_names\<close>
  show "((base, used_names, base @ ''_'' @ str_nat counter, counter + 1),
         (base, used_names, final_name, counter)) \<in> measure (\<lambda>(base, used, final, c).
         2 * card {k. c \<le> k \<and> base @ ''_'' @ str_nat k \<in> set used}
         + (if final \<in> set used then 1 else 0))"
    by auto
qed

declare unique_name.simps [simp del]


text \<open>
  The loop over \<open>enumerate(headers)\<close>. The Python set \<open>used_names\<close> is finite and only tested
  for membership, so a list holds it.
\<close>

fun headers_loop :: "(nat \<times> cell) list \<Rightarrow> string list \<Rightarrow> string list \<Rightarrow> string list" where
  "headers_loop [] used_names cleaned_headers = cleaned_headers"
| "headers_loop ((i, header) # rest) used_names cleaned_headers =
     (let clean_name = clean_name_of i used_names header;
          final_name = unique_name (lower clean_name) used_names (lower clean_name) 1
      in headers_loop rest (final_name # used_names) (cleaned_headers @ [final_name]))"

text \<open>The repair pass that runs when the names are not all different.\<close>

fun fix_duplicates :: "(nat \<times> string) list \<Rightarrow> string list \<Rightarrow> string list \<Rightarrow> string list" where
  "fix_duplicates [] final_used final_headers = final_headers"
| "fix_duplicates ((i, header) # rest) final_used final_headers =
     (if header \<in> set final_used
      then let new_header = header @ ''_'' @ str_nat i
           in fix_duplicates rest (new_header # final_used) (final_headers @ [new_header])
      else fix_duplicates rest (header # final_used) (final_headers @ [header]))"

text \<open>\<open>enumerate(xs)\<close>\<close>

definition enumerate_list :: "'a list \<Rightarrow> (nat \<times> 'a) list" where
  "enumerate_list xs = zip [0 ..< length xs] xs"

text \<open>The body of \<open>create_careful_headers\<close>, on the header row \<open>df.iloc[header_row].tolist()\<close>.\<close>

definition careful_headers :: "cell list \<Rightarrow> string list" where
  "careful_headers headers =
     (let cleaned_headers = headers_loop (enumerate_list headers) [] []
      in if length cleaned_headers \<noteq> card (set cleaned_headers)
         then fix_duplicates (enumerate_list cleaned_headers) [] []
         else cleaned_headers)"

text \<open>\<open>df.iloc[header_row]\<close> raises IndexError when the frame has no such row.\<close>

definition create_careful_headers :: "sheet \<Rightarrow> nat \<Rightarrow> py_error + string list" where
  "create_careful_headers df header_row =
     (if header_row < length (rws df) then Inr (careful_headers (rws df ! header_row))
      else Inl IndexError)"

subsection \<open>ultra_careful_cleaning\<close>

definition nan_representations :: "string list" where
  "nan_representations = [''nan'', ''NaN'', ''<NA>'', ''None'']"

definition error_values :: "string list" where
  "error_values = [''#VALUE!'', ''#REF!'', ''#DIV/0!'', ''#N/A'', ''#NAME?'', ''#NULL!'', ''#NUM!'']"

text \<open>\<open>df.loc[df[col] == v, col] = '0'\<close>, seen from one cell of the column.\<close>

definition replace_equal :: "string \<Rightarrow> string \<Rightarrow> string" where
  "replace_equal v s = (if s = v then ''0'' else s)"

text \<open>
  The body of the loop over the columns, seen from one cell: the four replacements in the
  order of the source, each on the result of the one before.
\<close>

definition clean_value :: "string \<Rightarrow> string" where
  "clean_value s0 =
     (let s = foldl (\<lambda>s nan_val. replace_equal nan_val s) s0 nan_representations;
          s = replace_equal [] s;
          s = (if strip s = [] then ''0'' else s);
          s = foldl (\<lambda>s error_val. replace_equal error_val s) s error_values
      in s)"

text \<open>
  \<open>df.astype(str)\<close>, then the loop over the columns, each of which rewrites the cells of its
  column only; the result is a frame of strings.
\<close>

definition ultra_careful_cleaning :: "sheet \<Rightarrow> string list list" where
  "ultra_careful_cleaning df = map (map (\<lambda>val. clean_value (str_cell val))) (rws df)"

subsection \<open>extract_actual_data\<close>

definition has_content :: "string \<Rightarrow> bool" where
  "has_content v = (strip v \<noteq> [] \<and> v \<noteq> ''0'' \<and> v \<noteq> ''nan'' \<and> v \<noteq> ''NaN'')"

text \<open>The loop over the key columns, which ors each column's test into \<open>has_data_mask\<close>.\<close>

fun mask_loop :: "cell list list \<Rightarrow> nat list \<Rightarrow> bool list \<Rightarrow> bool list" where
  "mask_loop data_df [] has_data_mask = has_data_mask"
| "mask_loop data_df (i # is) has_data_mask =
     (let col_values = map (\<lambda>row. str_cell (row ! i)) data_df
      in mask_loop data_df is (map2 (\<or>) has_data_mask (map has_content col_values)))"

definition extract_actual_data :: "sheet \<Rightarrow> nat \<Rightarrow> cell list list" where
  "extract_actual_data df data_start_row =
     (let data_df = drop data_start_row (rws df);
          key_columns = min 5 (ncols df);
          has_data_mask = mask_loop data_df [0 ..< key_columns] (replicate (length data_df) False)
      in map fst (filter snd (zip data_df has_data_mask)))"

subsection \<open>The boundaries of the specification\<close>

text \<open>
  The specification's words for the two indices: the header row is the earliest of the
  first 25 rows that scores 4 or more; failing that, the row among the first 15 with the
  highest fraction of non-blank cells (the earliest of them), if that fraction exceeds 0.3;
  failing that, 8. The data start lies after the header row and after the instruction rows
  that follow it, of which at most 10 are skipped, and is no instruction row itself when it
  is one of the rows scanned.
\<close>

definition density :: "sheet \<Rightarrow> nat \<Rightarrow> rat" where
  "density df i = of_nat (non_empty_count (rws df ! i)) / of_nat (ncols df)"

definition header_row_spec :: "sheet \<Rightarrow> nat \<Rightarrow> bool" where
  "header_row_spec df h =
     (let n25 = min 25 (length (rws df)); n15 = min 15 (length (rws df))
      in if \<exists>i \<in> {0 ..< n25}. header_score (rws df ! i) \<ge> 4
         then h < n25 \<and> header_score (rws df ! h) \<ge> 4
              \<and> (\<forall>j \<in> {0 ..< h}. header_score (rws df ! j) < 4)
         else if \<exists>i \<in> {0 ..< n15}. density df i > 3 / 10
         then h < n15 \<and> density df h > 3 / 10
              \<and> (\<forall>j \<in> {0 ..< n15}. density df j \<le> density df h)
              \<and> (\<forall>j \<in> {0 ..< h}. density df j < density df h)
         else h = 8)"

definition data_start_spec :: "sheet \<Rightarrow> nat \<Rightarrow> nat \<Rightarrow> bool" where
  "data_start_spec df h d =
     (h + 1 \<le> d \<and> d \<le> h + 11
      \<and> (\<forall>j \<in> {h + 1 ..< d}. j < length (rws df) \<and> is_instruction_row (rws df ! j))
      \<and> (d < h + 11 \<and> d < length (rws df) \<longrightarrow> \<not> is_instruction_row (rws df ! d)))"

text \<open>The invariant of the density loop after the rows below \<open>k\<close>.\<close>

definition density_inv :: "sheet \<Rightarrow> nat \<Rightarrow> rat \<Rightarrow> nat option \<Rightarrow> bool" where
  "density_inv df k m h =
     (case h of
        None \<Rightarrow> m = 0 \<and> (\<forall>j < k. density df j \<le> 3 / 10)
      | Some i \<Rightarrow> i < k \<and> m = density df i \<and> density df i > 3 / 10
                 \<and> (\<forall>j < k. density df j \<le> density df i)
                 \<and> (\<forall>j < i. density df j < density df i))"

subsection \<open>The header names of the specification\<close>

text \<open>
  The body of the naming loop for one column, and the loop as a recursion on the row: the
  name of column \<open>k\<close> is computed from the names given to the columns before it.
\<close>

definition final_name_of :: "nat \<Rightarrow> string list \<Rightarrow> cell \<Rightarrow> string" where
  "final_name_of i used_names header =
     unique_name (lower (clean_name_of i used_names header)) used_names
       (lower (clean_name_of i used_names header)) 1"

fun names_from :: "nat \<Rightarrow> cell list \<Rightarrow> string list \<Rightarrow> string list" where
  "names_from k [] used_names = []"
| "names_from k (header # rest) used_names =
     final_name_of k used_names header
       # names_from (Suc k) rest (final_name_of k used_names header # used_names)"

text \<open>
  The normalised header text of a cell and its lower-cased form, as \<open>clean_name_of\<close>
  computes them before it tries its rules; and the rules that come before the month rules.
\<close>

definition header_str_of :: "cell \<Rightarrow> string" where
  "header_str_of header =
     join '' '' (split_ws []
       (replace (CHR 0x0D) '' '' (replace (CHR 0x0A) '' '' (strip (str_cell header)))))"

definition header_lower_of :: "cell \<Rightarrow> string" where
  "header_lower_of header =
     lower (join '' '' (split_ws []
       (replace (CHR 0x0D) '' '' (replace (CHR 0x0A) '' '' (strip (str_cell header))))))"

definition earlier_rule :: "string \<Rightarrow> bool" where
  "earlier_rule header_lower =
     ((str_in ''id'' header_lower
         \<and> (str_in ''change'' header_lower \<or> str_in ''delete'' header_lower
              \<or> str_in ''add'' header_lower))
      \<or> header_lower = ''company'' \<or> header_lower = ''region''
      \<or> header_lower = ''plant'' \<or> header_lower = ''customer''
      \<or> str_in ''cost center'' header_lower
      \<or> str_in ''description'' header_lower
      \<or> (str_in ''investment'' header_lower \<and> str_in ''category'' header_lower)
      \<or> str_in ''budget'' header_lower \<or> str_in ''total'' header_lower)"

subsection \<open>The blank values of the specification\<close>

text \<open>
  The specification's words for the normalisation and for the retention of rows: the
  recognised NaN renderings, the seven spreadsheet error codes, whitespace-only text, and
  the cells that the normalisation is said to replace. They are compared with the code below.
\<close>

definition nan_rendering :: "string \<Rightarrow> bool" where
  "nan_rendering s = (s \<in> {''nan'', ''NaN'', ''<NA>'', ''None''})"

definition error_code :: "string \<Rightarrow> bool" where
  "error_code s =
     (s \<in> {''#VALUE!'', ''#REF!'', ''#DIV/0!'', ''#N/A'', ''#NAME?'', ''#NULL!'', ''#NUM!''})"

definition whitespace_only :: "string \<Rightarrow> bool" where
  "whitespace_only s = (s \<noteq> [] \<and> list_all is_space s)"

definition blank_like :: "string \<Rightarrow> bool" where
  "blank_like s = (s = [] \<or> whitespace_only s \<or> nan_rendering s \<or> error_code s)"

text \<open>The cells that the retention check is said to ignore, judged on the text form.\<close>

definition claimed_blank :: "string \<Rightarrow> bool" where
  "claimed_blank v = (strip v = [] \<or> v = ''0'' \<or> nan_rendering v)"

section \<open>Properties of the query engine\<close>

subsection \<open>Substrings survive lower-casing and stripping\<close>

lemma sublist_dropWhile_keep:
  assumes "w \<noteq> []" and "\<not> P (hd w)" and "sublist w s"
  shows "sublist w (dropWhile P s)"
proof -
  from assms(3) obtain ps ss where s: "s = ps @ w @ ss" by (auto simp: sublist_def)
  have "sublist w (dropWhile P (ps @ w @ ss))"
  proof (induction ps)
    case Nil
    from assms(1,2) have "dropWhile P (w @ ss) = w @ ss" by (cases w) auto
    then show ?case by simp
  next
    case (Cons a ps)
    show ?case
    proof (cases "P a")
      case True
      with Cons show ?thesis by simp
    next
      case False
      have "sublist w ((a # ps) @ w @ ss)" by (rule sublist_appendI)
      with False show ?thesis by simp
    qed
  qed
  with s show ?thesis by simp
qed

lemma str_in_strip:
  assumes "w \<noteq> []" and "\<not> is_space (hd w)" and "\<not> is_space (last w)" and "str_in w s"
  shows "str_in w (strip s)"
proof -
  have l: "sublist w (lstrip s)"
    unfolding lstrip_def using assms(1,2,4) by (rule sublist_dropWhile_keep)
  have "rev w \<noteq> []" using assms(1) by simp
  moreover have "\<not> is_space (hd (rev w))" using assms(1,3) by (simp add: hd_rev)
  moreover have "sublist (rev w) (rev (lstrip s))" using l by simp
  ultimately have "sublist (rev w) (dropWhile is_space (rev (lstrip s)))"
    by (rule sublist_dropWhile_keep)
  then have "sublist (rev (rev w)) (rev (dropWhile is_space (rev (lstrip s))))"
    by (simp only: sublist_rev)
  then show ?thesis by (simp add: strip_def rstrip_def)
qed

lemma str_in_lower: "str_in w s \<Longrightarrow> str_in (lower w) (lower s)"
  unfolding lower_def by (rule map_mono_sublist)

lemma str_in_normalised:
  assumes "lower w = w" and "w \<noteq> []" and "\<not> is_space (hd w)" and "\<not> is_space (last w)"
    and "str_in w s"
  shows "str_in w (strip (lower s))"
proof -
  from assms(5) have "str_in (lower w) (lower s)" by (rule str_in_lower)
  with assms(1) have "str_in w (lower s)" by simp
  with assms(2-4) show ?thesis by (rule str_in_strip)
qed

lemma count_normalised: "str_in ''count'' s \<Longrightarrow> str_in ''count'' (strip (lower s))"
  by (rule str_in_normalised) (simp_all add: lower_def lower_char_def is_space_def)

subsection \<open>Intent classification\<close>

text \<open>The if-chain of the code is the dispatch on the specification's intent.\<close>

lemma nl2sql_query_for:
  "natural_language_to_sql sch q = query_for sch (intent_of q) (strip (lower q))"
  by (simp add: natural_language_to_sql_def intent_of_def classify_intent_def keyword_groups_def Let_def)


lemma find_first_match:
  assumes "k < length xs" and "P (xs ! k)" and "\<forall>j<k. \<not> P (xs ! j)"
  shows "find P xs = Some (xs ! k)"
  using assms by (auto simp: find_Some_iff)

text \<open>
  Claim C5. For every question, normalised by lower-casing and stripping as the code does:
  if the \<open>k\<close>-th keyword group, in the order count-words, total/sum/amount,
  average/avg/mean, list/show/display/get, maximum/max/highest/largest,
  minimum/min/lowest/smallest, is the first one with a word occurring in the question, the
  generated SQL is that of the \<open>k\<close>-th intent, whatever later groups match; if no group
  matches, it is the generic query. In particular a question containing both \<open>count\<close> and
  \<open>average\<close> has the intent COUNT and gets the count query.
\<close>

theorem intent_priority:
  "(\<forall>k < length keyword_groups.
      any_in (snd (keyword_groups ! k)) (strip (lower q))
      \<and> (\<forall>j < k. \<not> any_in (snd (keyword_groups ! j)) (strip (lower q)))
      \<longrightarrow> natural_language_to_sql sch q
            = query_for sch (fst (keyword_groups ! k)) (strip (lower q)))
   \<and> ((\<forall>k < length keyword_groups. \<not> any_in (snd (keyword_groups ! k)) (strip (lower q)))
      \<longrightarrow> natural_language_to_sql sch q = generate_general_query (strip (lower q)))
   \<and> (str_in ''count'' q \<and> str_in ''average'' q
      \<longrightarrow> intent_of q = Count_Intent
          \<and> natural_language_to_sql sch q = generate_count_query (strip (lower q)))"
proof (intro conjI allI impI)
  fix k
  assume k: "k < length keyword_groups"
    and m: "any_in (snd (keyword_groups ! k)) (strip (lower q))
            \<and> (\<forall>j < k. \<not> any_in (snd (keyword_groups ! j)) (strip (lower q)))"
  have "find (\<lambda>g. any_in (snd g) (strip (lower q))) keyword_groups = Some (keyword_groups ! k)"
    using k m by (intro find_first_match) auto
  then have "intent_of q = fst (keyword_groups ! k)"
    by (simp add: intent_of_def classify_intent_def)
  then show "natural_language_to_sql sch q
             = query_for sch (fst (keyword_groups ! k)) (strip (lower q))"
    by (simp add: nl2sql_query_for)
next
  assume "\<forall>k < length keyword_groups. \<not> any_in (snd (keyword_groups ! k)) (strip (lower q))"
  then have "find (\<lambda>g. any_in (snd g) (strip (lower q))) keyword_groups = None"
    by (auto simp: find_None_iff in_set_conv_nth)
  then have "intent_of q = Generic_Intent"
    by (simp add: intent_of_def classify_intent_def)
  then show "natural_language_to_sql sch q = generate_general_query (strip (lower q))"
    by (simp add: nl2sql_query_for)
next
  assume "str_in ''count'' q \<and> str_in ''average'' q"
  then have "str_in ''count'' (strip (lower q))" by (simp add: count_normalised)
  then show c: "intent_of q = Count_Intent"
    by (simp add: intent_of_def classify_intent_def keyword_groups_def any_in_def)
  show "natural_language_to_sql sch q = generate_count_query (strip (lower q))"
    by (simp add: nl2sql_query_for c)
qed

theorem intent_priority_witness:
  "str_in ''count'' ''average count of companies''
   \<and> str_in ''average'' ''average count of companies''
   \<and> intent_of ''average count of companies'' = Count_Intent
   \<and> natural_language_to_sql [] ''average count of companies''
       = ''SELECT COUNT(*) as count FROM investment_projects''
   \<and> natural_language_to_sql [] ''hello'' = ''SELECT * FROM investment_projects LIMIT 10''"
proof -
  have h: "str_in ''count'' ''average count of companies''
           \<and> str_in ''average'' ''average count of companies''"
    by code_simp
  have g: "generate_count_query (strip (lower ''average count of companies''))
           = ''SELECT COUNT(*) as count FROM investment_projects''"
    by code_simp
  have n: "\<forall>k < length keyword_groups. \<not> any_in (snd (keyword_groups ! k)) (strip (lower ''hello''))"
    by (simp add: keyword_groups_def All_less_Suc2) code_simp
  have e: "generate_general_query (strip (lower ''hello'')) = ''SELECT * FROM investment_projects LIMIT 10''"
    by code_simp
  from intent_priority [of "''average count of companies''" "[]"] h
  have "intent_of ''average count of companies'' = Count_Intent
        \<and> natural_language_to_sql [] ''average count of companies''
            = generate_count_query (strip (lower ''average count of companies''))"
    by blast
  moreover from intent_priority [of "''hello''" "[]"] n
  have "natural_language_to_sql [] ''hello'' = generate_general_query (strip (lower ''hello''))"
    by blast
  ultimately show ?thesis using h g e by simp
qed


subsection \<open>The fallback of the aggregates\<close>

lemma no_budget_columns:
  "(\<forall>col \<in> set (map fst sch). \<not> budget_like col) \<Longrightarrow> budget_columns sch = []"
  by (auto simp: budget_columns_def budget_like_def filter_empty_conv)

text \<open>
  Claim C6, as amended. For every schema with no column whose name contains \<open>budget\<close>,
  \<open>total\<close> or \<open>value\<close>: a question with the intent SUM or AVG gets the unfiltered COUNT
  query over the table; a question with the intent MAX or MIN gets
  \<open>SELECT * FROM investment_projects LIMIT 1\<close>, which is no COUNT query.
\<close>

theorem aggregate_fallback:
  assumes "\<forall>col \<in> set (map fst sch). \<not> budget_like col"
  shows "(intent_of q = Sum_Intent \<or> intent_of q = Avg_Intent
            \<longrightarrow> natural_language_to_sql sch q = count_query)
         \<and> (intent_of q = Max_Intent \<or> intent_of q = Min_Intent
            \<longrightarrow> natural_language_to_sql sch q = ''SELECT * FROM investment_projects LIMIT 1'')"
proof -
  from assms have b: "budget_columns sch = []" by (rule no_budget_columns)
  show ?thesis
    by (auto simp: nl2sql_query_for b count_query_def table_name_def generate_sum_query_def
        generate_avg_query_def generate_max_query_def generate_min_query_def)
qed

theorem aggregate_fallback_witness:
  "natural_language_to_sql [(''company'', ''TEXT''), (''region'', ''TEXT'')]
     ''What is the total budget?'' = ''SELECT COUNT(*) as count FROM investment_projects''
   \<and> natural_language_to_sql [(''company'', ''TEXT''), (''region'', ''TEXT'')]
     ''What is the smallest investment?'' = ''SELECT * FROM investment_projects LIMIT 1''"
proof -
  have h: "\<forall>col \<in> set (map fst [(''company'', ''TEXT''), (''region'', ''TEXT'')]). \<not> budget_like col"
    unfolding budget_like_def by simp code_simp
  have s: "intent_of ''What is the total budget?'' = Sum_Intent" by code_simp
  have m: "intent_of ''What is the smallest investment?'' = Min_Intent" by code_simp
  from aggregate_fallback [OF h, of "''What is the total budget?''"] s
  have "natural_language_to_sql [(''company'', ''TEXT''), (''region'', ''TEXT'')]
          ''What is the total budget?'' = count_query"
    by blast
  moreover from aggregate_fallback [OF h, of "''What is the smallest investment?''"] m
  have "natural_language_to_sql [(''company'', ''TEXT''), (''region'', ''TEXT'')]
          ''What is the smallest investment?'' = ''SELECT * FROM investment_projects LIMIT 1''"
    by blast
  ultimately show ?thesis by (simp add: count_query_def)
qed

text \<open>
  The claim as stated fails for MAX: with a schema of the columns \<open>company\<close> and \<open>region\<close>,
  the question below has the intent MAX, and its SQL does not mention COUNT.
\<close>

theorem aggregate_fallback_counterexample:
  "\<not> budget_like ''company'' \<and> \<not> budget_like ''region''
   \<and> intent_of ''What is the largest investment?'' = Max_Intent
   \<and> natural_language_to_sql [(''company'', ''TEXT''), (''region'', ''TEXT'')]
        ''What is the largest investment?'' = ''SELECT * FROM investment_projects LIMIT 1''
   \<and> \<not> str_in ''COUNT'' (natural_language_to_sql [(''company'', ''TEXT''), (''region'', ''TEXT'')]
        ''What is the largest investment?'')"
  by code_simp

subsection \<open>The filter of the grouped queries\<close>

text \<open>
  Claim C7 says that every query grouped by a dimension excludes the rows where the
  dimension is NULL, the empty string or \<open>'0'\<close>. The code at the sample question
  \<open>What is the average budget by company?\<close>, with a schema that has a budget column:
  the AVG query groups by \<open>Company\<close> and excludes NULL and \<open>'0'\<close> only; the empty-string
  literal does not occur in it at all, while the SUM query of the sibling function has the
  condition.
\<close>

theorem avg_group_by_filter:
  "natural_language_to_sql [(''budget_5'', ''TEXT'')] ''What is the average budget by company?''
     = ''SELECT Company, AVG(CAST(budget_5 AS REAL)) as average FROM investment_projects WHERE Company IS NOT NULL AND Company != '0' GROUP BY Company ORDER BY average DESC''
   \<and> \<not> str_in sql_empty
        (natural_language_to_sql [(''budget_5'', ''TEXT'')] ''What is the average budget by company?'')
   \<and> str_in (''company != '' @ sql_empty)
        (natural_language_to_sql [(''budget_5'', ''TEXT'')] ''What is the total budget by company?'')"
  by code_simp

subsection \<open>The scenarios\<close>

text \<open>
  Claim C8 says that \<open>How many projects are there?\<close> gets the unfiltered \<open>COUNT(*)\<close> and
  that \<open>Show all companies\<close> gets the distinct companies. The code on the two questions,
  for every schema: the first is as claimed; the second gets the generic ten-row query,
  because \<open>company\<close> is no substring of \<open>show all companies\<close>.
\<close>

theorem scenario_queries:
  "natural_language_to_sql sch ''How many projects are there?''
     = ''SELECT COUNT(*) as count FROM investment_projects''
   \<and> natural_language_to_sql sch ''Show all companies''
     = ''SELECT * FROM investment_projects LIMIT 10''
   \<and> \<not> str_in ''company'' (strip (lower ''Show all companies''))"
  by code_simp

subsection \<open>The success flag\<close>

lemma and_then_simps [simp]:
  "and_then (Inl e) f = Inl e" "and_then (Inr x) f = f x"
  by (simp_all add: and_then_def)

lemma py_print_cases:
  "py_print enc text = (if can_print enc text then Inr () else Inl UnicodeEncodeError)"
  by (simp add: py_print_def)

text \<open>
  Claim C10, as amended. When the output stream can encode every text that the call prints
  (the question, the SQL, the message of a failed execution, the rendered results),
  \<open>ask_question\<close> returns a record, with the question and the generated SQL, whose success
  flag is True if and only if its results are not empty. When the store raises,
  \<open>execute_query\<close> returns the empty frame and the record has the empty frame and the flag
  False. When the store returns a frame that is not empty, the record has that frame and the
  flag True. When the store returns an empty frame, such as one without rows, the record is
  the one of a failed execution, field for field. When the stream cannot encode one of the
  texts, the UnicodeEncodeError of \<open>print\<close> leaves \<open>ask_question\<close>.
\<close>

theorem success_flag:
  "(list_all (can_print enc) (printed_texts to_string st sch q) \<longrightarrow>
      (\<exists>a. ask_question enc to_string st sch q = Inr a
         \<and> question a = q \<and> sql_query a = natural_language_to_sql sch q
         \<and> success a = (\<not> df_empty (results a))
         \<and> (\<forall>e. st (natural_language_to_sql sch q) = Inl e \<longrightarrow>
               execute_query enc st (natural_language_to_sql sch q) = Inr empty_frame
               \<and> a = \<lparr>question = q, sql_query = natural_language_to_sql sch q,
                       results = empty_frame, success = False\<rparr>
               \<and> (\<forall>st' df. st' (natural_language_to_sql sch q) = Inr df \<and> df_empty df \<longrightarrow>
                     ask_question enc to_string st' sch q = Inr a))
         \<and> (\<forall>df. st (natural_language_to_sql sch q) = Inr df \<and> \<not> df_empty df \<longrightarrow>
               a = \<lparr>question = q, sql_query = natural_language_to_sql sch q,
                     results = df, success = True\<rparr>)
         \<and> (\<forall>df. st (natural_language_to_sql sch q) = Inr df \<and> df_empty df \<longrightarrow>
               a = \<lparr>question = q, sql_query = natural_language_to_sql sch q,
                     results = empty_frame, success = False\<rparr>)))
   \<and> (\<not> list_all (can_print enc) (printed_texts to_string st sch q) \<longrightarrow>
        ask_question enc to_string st sch q = Inl UnicodeEncodeError)"
proof (cases "st (natural_language_to_sql sch q)")
  case (Inl e)
  then show ?thesis
    by (auto simp: ask_question_def execute_query_def printed_texts_def py_print_cases Let_def
        df_empty_def empty_frame_def)
next
  case (Inr df)
  then show ?thesis
    by (cases "df_empty df")
      (auto simp: ask_question_def execute_query_def printed_texts_def py_print_cases Let_def
        df_empty_def empty_frame_def)
qed


theorem success_flag_witness:
  "ask_question (\<lambda>c. True) (\<lambda>df. concat (map concat (df_rows df)))
     (\<lambda>sql. Inr \<lparr>df_columns = [''count''], df_rows = [[''42'']]\<rparr>) []
     ''How many projects are there?''
   = Inr \<lparr>question = ''How many projects are there?'',
          sql_query = ''SELECT COUNT(*) as count FROM investment_projects'',
          results = \<lparr>df_columns = [''count''], df_rows = [[''42'']]\<rparr>, success = True\<rparr>
   \<and> ask_question (\<lambda>c. True) (\<lambda>df. concat (map concat (df_rows df)))
     (\<lambda>sql. Inl ''no such table: investment_projects'') []
     ''How many projects are there?''
   = Inr \<lparr>question = ''How many projects are there?'',
          sql_query = ''SELECT COUNT(*) as count FROM investment_projects'',
          results = empty_frame, success = False\<rparr>
   \<and> ask_question (\<lambda>c. True) (\<lambda>df. concat (map concat (df_rows df)))
     (\<lambda>sql. Inr \<lparr>df_columns = [''count''], df_rows = []\<rparr>) []
     ''How many projects are there?''
   = Inr \<lparr>question = ''How many projects are there?'',
          sql_query = ''SELECT COUNT(*) as count FROM investment_projects'',
          results = empty_frame, success = False\<rparr>"
proof -
  let ?ts = "\<lambda>df :: string data_frame. concat (map concat (df_rows df))"
  let ?q = "''How many projects are there?''"
  let ?ok = "\<lambda>sql :: string. Inr \<lparr>df_columns = [''count''], df_rows = [[''42'']]\<rparr>
               :: string + string data_frame"
  let ?fail = "\<lambda>sql :: string. Inl ''no such table: investment_projects''
               :: string + string data_frame"
  let ?zero = "\<lambda>sql :: string. Inr \<lparr>df_columns = [''count''], df_rows = []\<rparr>
               :: string + string data_frame"
  have p: "list_all (can_print (\<lambda>c. True)) (printed_texts ?ts st [] ?q)"
    for st :: "string store"
    by (simp add: list_all_iff can_print_def)
  have sql: "natural_language_to_sql [] ?q = ''SELECT COUNT(*) as count FROM investment_projects''"
    by code_simp
  have "\<not> df_empty \<lparr>df_columns = [''count''], df_rows = [[''42'']]\<rparr>"
    by (simp add: df_empty_def)
  with success_flag [of "\<lambda>c. True" ?ts ?ok "[]" ?q] p [of ?ok]
  have 1: "ask_question (\<lambda>c. True) ?ts ?ok [] ?q
           = Inr \<lparr>question = ?q, sql_query = natural_language_to_sql [] ?q,
                  results = \<lparr>df_columns = [''count''], df_rows = [[''42'']]\<rparr>, success = True\<rparr>"
    by auto
  from success_flag [of "\<lambda>c. True" ?ts ?fail "[]" ?q] p [of ?fail]
  have 2: "ask_question (\<lambda>c. True) ?ts ?fail [] ?q
           = Inr \<lparr>question = ?q, sql_query = natural_language_to_sql [] ?q,
                  results = empty_frame, success = False\<rparr>"
    by auto
  have "df_empty \<lparr>df_columns = [''count''], df_rows = ([] :: string list list)\<rparr>"
    by (simp add: df_empty_def)
  with success_flag [of "\<lambda>c. True" ?ts ?zero "[]" ?q] p [of ?zero]
  have 3: "ask_question (\<lambda>c. True) ?ts ?zero [] ?q
           = Inr \<lparr>question = ?q, sql_query = natural_language_to_sql [] ?q,
                  results = empty_frame, success = False\<rparr>"
    by auto
  from 1 2 3 show ?thesis unfolding sql by simp
qed

text \<open>
  The claim as stated fails in its first part: on a stream that encodes ASCII only, the
  question below, with the letter u-umlaut, makes the first print raise. A stream in UTF-8
  refuses a lone surrogate in the same way.
\<close>

theorem success_flag_counterexample:
  "ask_question (\<lambda>c. (of_char c :: nat) < 128) (\<lambda>df. concat (map concat (df_rows df)))
     (\<lambda>sql. Inr \<lparr>df_columns = [''count''], df_rows = [[''42'']]\<rparr>) []
     (''How many projects in M'' @ [CHR 0xFC] @ ''nchen?'')
   = Inl UnicodeEncodeError"
  by (simp add: ask_question_def py_print_def can_print_def)

section \<open>Properties of the ingestion pipeline\<close>

subsection \<open>Blank normalisation\<close>

lemma strip_empty_iff: "strip s = [] \<longleftrightarrow> list_all is_space s"
proof
  assume "strip s = []"
  then have "dropWhile is_space (rev (dropWhile is_space s)) = []"
    by (simp add: strip_def rstrip_def lstrip_def)
  then have a: "\<forall>c \<in> set (dropWhile is_space s). is_space c"
    by (simp add: dropWhile_eq_Nil_conv)
  have "dropWhile is_space s = []"
  proof (rule ccontr)
    assume n: "dropWhile is_space s \<noteq> []"
    then have "\<not> is_space (hd (dropWhile is_space s))" by (rule hd_dropWhile)
    moreover from n have "hd (dropWhile is_space s) \<in> set (dropWhile is_space s)" by simp
    ultimately show False using a by blast
  qed
  then have "\<forall>c \<in> set s. is_space c" by (simp only: dropWhile_eq_Nil_conv)
  then show "list_all is_space s" by (simp only: list_all_iff)
next
  assume "list_all is_space s"
  then have "\<forall>c \<in> set s. is_space c" by (simp only: list_all_iff)
  then have d: "dropWhile is_space s = []" by (simp only: dropWhile_eq_Nil_conv)
  show "strip s = []" unfolding strip_def rstrip_def lstrip_def d by simp
qed

lemma nan_step:
  "foldl (\<lambda>s nan_val. replace_equal nan_val s) s nan_representations
     = (if nan_rendering s then ''0'' else s)"
  by (simp add: nan_representations_def replace_equal_def nan_rendering_def)

lemma error_step:
  "foldl (\<lambda>s error_val. replace_equal error_val s) s error_values
     = (if error_code s then ''0'' else s)"
  by (simp add: error_values_def replace_equal_def error_code_def)

lemma zero_not_blank: "\<not> blank_like ''0''"
  by (simp add: blank_like_def whitespace_only_def nan_rendering_def error_code_def is_space_def)

lemma clean_value_blank_like: "clean_value s = (if blank_like s then ''0'' else s)"
proof -
  have z: "strip ''0'' \<noteq> []" "\<not> error_code ''0''"
    using zero_not_blank by (auto simp: strip_empty_iff blank_like_def whitespace_only_def)
  have "clean_value s =
          (let s1 = (if nan_rendering s then ''0'' else s);
               s2 = (if s1 = [] then ''0'' else s1);
               s3 = (if strip s2 = [] then ''0'' else s2)
           in if error_code s3 then ''0'' else s3)"
    unfolding clean_value_def Let_def nan_step error_step by (simp add: replace_equal_def)
  also have "\<dots> = (if blank_like s then ''0'' else s)"
    using z by (auto simp: Let_def blank_like_def whitespace_only_def strip_empty_iff)
  finally show ?thesis .
qed

text \<open>
  Claim C3, as amended. For every cell of the frame, with \<open>t\<close> its text form: the stored
  value is \<open>0\<close> if and only if \<open>t\<close> is empty, whitespace-only, one of \<open>nan\<close>, \<open>NaN\<close>,
  \<open><NA>\<close>, \<open>None\<close>, one of the seven error codes, or is itself the text \<open>0\<close>; and the
  text of every cell that is none of the blank values is stored unchanged.
\<close>

theorem blank_normalization:
  assumes "r < length (rws df)" and "c < length (rws df ! r)"
  shows "(ultra_careful_cleaning df ! r ! c = ''0''
            \<longleftrightarrow> blank_like (str_cell (rws df ! r ! c)) \<or> str_cell (rws df ! r ! c) = ''0'')
         \<and> (\<not> blank_like (str_cell (rws df ! r ! c))
            \<longrightarrow> ultra_careful_cleaning df ! r ! c = str_cell (rws df ! r ! c))"
  using assms by (simp add: ultra_careful_cleaning_def clean_value_blank_like)

text \<open>
  The claim as stated fails in its only-if direction: a cell whose text is \<open>0\<close> is stored
  as \<open>0\<close>, and \<open>0\<close> is none of the blank values.
\<close>

theorem blank_normalization_counterexample:
  "ultra_careful_cleaning \<lparr>ncols = 1, rws = [[Text ''0'']]\<rparr> ! 0 ! 0 = ''0''
   \<and> \<not> blank_like (str_cell (Text ''0''))"
  using zero_not_blank by (simp add: ultra_careful_cleaning_def clean_value_blank_like)


theorem blank_normalization_witness:
  "ultra_careful_cleaning \<lparr>ncols = 2, rws = [[Text ''  '', Text ''#N/A''], [NA, Text ''x y '']]\<rparr>
     = [[''0'', ''0''], [''0'', ''x y '']]"
proof -
  let ?df = "\<lparr>ncols = 2, rws = [[Text ''  '', Text ''#N/A''], [NA, Text ''x y '']]\<rparr>"
  have b: "blank_like ''  ''" "blank_like ''#N/A''" "blank_like ''nan''" "\<not> blank_like ''x y ''"
    by (simp_all add: blank_like_def whitespace_only_def nan_rendering_def error_code_def
        is_space_def)
  have "ultra_careful_cleaning ?df ! 0 ! 0 = ''0''"
    using blank_normalization [of 0 ?df 0] b by simp
  moreover have "ultra_careful_cleaning ?df ! 0 ! 1 = ''0''"
    using blank_normalization [of 0 ?df 1] b by simp
  moreover have "ultra_careful_cleaning ?df ! 1 ! 0 = ''0''"
    using blank_normalization [of 1 ?df 0] b by simp
  moreover have "ultra_careful_cleaning ?df ! 1 ! 1 = ''x y ''"
    using blank_normalization [of 1 ?df 1] b by simp
  moreover have "length (ultra_careful_cleaning ?df) = 2"
    "length (ultra_careful_cleaning ?df ! 0) = 2" "length (ultra_careful_cleaning ?df ! 1) = 2"
    by (simp_all add: ultra_careful_cleaning_def)
  ultimately show ?thesis
    by (intro nth_equalityI) (auto simp: less_Suc_eq numeral_2_eq_2)
qed

subsection \<open>Row retention\<close>

lemma mask_loop_or:
  "length msk = length data_df \<Longrightarrow>
   mask_loop data_df is msk
     = map2 (\<or>) msk (map (\<lambda>row. \<exists>i \<in> set is. has_content (str_cell (row ! i))) data_df)"
proof (induction "is" arbitrary: msk)
  case Nil
  then show ?case by (auto simp: list_eq_iff_nth_eq)
next
  case (Cons i "is")
  have "length (map2 (\<or>) msk (map has_content (map (\<lambda>row. str_cell (row ! i)) data_df)))
          = length data_df"
    using Cons.prems by simp
  from Cons.IH [OF this] Cons.prems show ?case
    by (auto simp: Let_def list_eq_iff_nth_eq)
qed

lemma filter_by_mask: "map fst (filter snd (zip xs (map P xs))) = filter P xs"
  by (induction xs) auto

lemma key_cells:
  assumes "k \<le> length row"
  shows "(\<exists>i \<in> set [0 ..< k]. Q (row ! i)) \<longleftrightarrow> (\<exists>val \<in> set (take k row). Q val)"
proof
  assume "\<exists>i \<in> set [0 ..< k]. Q (row ! i)"
  then obtain i where "i < k" "Q (row ! i)" by auto
  with assms have "row ! i \<in> set (take k row)"
    by (metis in_set_conv_nth length_take min.absorb2 nth_take)
  with \<open>Q (row ! i)\<close> show "\<exists>val \<in> set (take k row). Q val" by blast
next
  assume "\<exists>val \<in> set (take k row). Q val"
  then obtain i where "i < length (take k row)" "Q (take k row ! i)"
    by (auto simp: in_set_conv_nth)
  then show "\<exists>i \<in> set [0 ..< k]. Q (row ! i)" by auto
qed

text \<open>
  What the code does, for every frame whose rows have one cell per column: the result is
  the rows from \<open>data_start_row\<close> on, whole and in their order, without those rows whose
  first \<open>min 5 (ncols df)\<close> cells are each blank after stripping, the text \<open>0\<close>, or one of
  the two renderings \<open>nan\<close> and \<open>NaN\<close>, judged on the text forms before any normalisation.
\<close>

lemma row_retention:
  assumes "wf_sheet df"
  shows "extract_actual_data df data_start_row
         = filter (\<lambda>row. \<exists>val \<in> set (take (min 5 (ncols df)) row).
                      \<not> (strip (str_cell val) = [] \<or> str_cell val = ''0''
                         \<or> str_cell val = ''nan'' \<or> str_cell val = ''NaN''))
             (drop data_start_row (rws df))"
proof -
  let ?rows = "drop data_start_row (rws df)"
  let ?k = "min 5 (ncols df)"
  let ?P = "\<lambda>row. \<exists>i \<in> set [0 ..< ?k]. has_content (str_cell (row ! i))"
  let ?Q = "\<lambda>row. \<exists>val \<in> set (take ?k row). has_content (str_cell val)"
  have m: "mask_loop ?rows [0 ..< ?k] (replicate (length ?rows) False) = map ?P ?rows"
    by (subst mask_loop_or) (auto simp: list_eq_iff_nth_eq)
  have "\<forall>row \<in> set ?rows. length row = ncols df"
    using assms by (auto simp: wf_sheet_def list_all_iff dest: in_set_dropD)
  then have "\<forall>row \<in> set ?rows. ?P row = ?Q row"
    by (intro ballI key_cells) simp
  then have "filter ?P ?rows = filter ?Q ?rows" by (intro filter_cong) auto
  moreover have "extract_actual_data df data_start_row = filter ?P ?rows"
    unfolding extract_actual_data_def Let_def m filter_by_mask ..
  ultimately have "extract_actual_data df data_start_row = filter ?Q ?rows" by simp
  then show ?thesis by (simp add: has_content_def)
qed

lemma row_retention_example:
  "extract_actual_data
     \<lparr>ncols = 2, rws = [[Text ''Company'', Text ''Region''], [NA, Text ''0''],
                       [Text ''  '', Text ''EMEA''], [Text ''nan'', NA]]\<rparr> 1
   = [[Text ''  '', Text ''EMEA'']]"
proof -
  let ?df = "\<lparr>ncols = 2, rws = [[Text ''Company'', Text ''Region''], [NA, Text ''0''],
                       [Text ''  '', Text ''EMEA''], [Text ''nan'', NA]]\<rparr>"
  have w: "wf_sheet ?df" by (simp add: wf_sheet_def)
  have s: "strip ''  '' = []" "strip ''EMEA'' \<noteq> []" "strip ''nan'' \<noteq> []" "strip ''0'' \<noteq> []"
    by (simp_all add: strip_empty_iff is_space_def)
  show ?thesis
    using row_retention [OF w, of 1] s by simp
qed

text \<open>
  On the frames whose key cells never read \<open><NA>\<close> or \<open>None\<close>, this is the retention that
  the specification describes: a row is dropped exactly when each of its key cells is
  blank, \<open>0\<close> or a recognised NaN rendering.
\<close>

lemma row_retention_as_claimed:
  assumes "wf_sheet df"
    and "\<forall>row \<in> set (drop data_start_row (rws df)).
           \<forall>val \<in> set (take (min 5 (ncols df)) row).
             str_cell val \<noteq> ''<NA>'' \<and> str_cell val \<noteq> ''None''"
  shows "extract_actual_data df data_start_row
         = filter (\<lambda>row. \<not> list_all (\<lambda>val. claimed_blank (str_cell val))
                               (take (min 5 (ncols df)) row))
             (drop data_start_row (rws df))"
  unfolding row_retention [OF assms(1)]
  using assms(2)
  by (intro filter_cong refl) (auto simp: list_all_iff claimed_blank_def nan_rendering_def)

text \<open>
  Claim C4 says that a row is dropped if and only if each of its first \<open>min 5\<close> of the
  column count cells is blank, \<open>0\<close> or a recognised NaN rendering. The code on a frame of
  one column and three rows, whose cells are the text \<open>None\<close>, the text \<open><NA>\<close> and a
  missing value: each cell is a recognised NaN rendering, so each row is to be dropped;
  \<open>extract_actual_data\<close> drops the third row only and keeps the first two, and
  \<open>ultra_careful_cleaning\<close>, whose list of NaN renderings has all four, then stores them
  as rows of \<open>0\<close>.
\<close>

theorem row_retention_nan_renderings:
  "wf_sheet \<lparr>ncols = 1, rws = [[Text ''None''], [Text ''<NA>''], [NA]]\<rparr>
   \<and> list_all (\<lambda>row. list_all (\<lambda>val. claimed_blank (str_cell val)) (take (min 5 1) row))
        [[Text ''None''], [Text ''<NA>''], [NA]]
   \<and> extract_actual_data \<lparr>ncols = 1, rws = [[Text ''None''], [Text ''<NA>''], [NA]]\<rparr> 0
       = [[Text ''None''], [Text ''<NA>'']]
   \<and> ultra_careful_cleaning \<lparr>ncols = 1, rws = [[Text ''None''], [Text ''<NA>'']]\<rparr>
       = [[''0''], [''0'']]"
  by (simp add: claimed_blank_def nan_rendering_def wf_sheet_def) code_simp

subsection \<open>Header naming\<close>

lemma unique_name_fresh: "unique_name base used final c \<notin> set used"
proof (induction base used final c rule: unique_name.induct)
  case (1 base used final c)
  then show ?case by (subst unique_name.simps) simp
qed

lemma unique_name_form:
  "unique_name base used final c = final
   \<or> (\<exists>k. unique_name base used final c = base @ ''_'' @ str_nat k)"
proof (induction base used final c rule: unique_name.induct)
  case (1 base used final c)
  show ?case
  proof (cases "final \<in> set used")
    case True
    with 1 show ?thesis by (subst (1 2) unique_name.simps) auto
  next
    case False
    then show ?thesis by (subst unique_name.simps) simp
  qed
qed

lemma unique_name_unused: "final \<notin> set used \<Longrightarrow> unique_name base used final c = final"
  by (subst unique_name.simps) simp

lemma str_nat_nonempty: "str_nat n \<noteq> []"
  by (subst str_nat.simps) simp

lemma general_cleaning_cases:
  "general_cleaning i s = ''column_'' @ str_nat i
   \<or> (general_cleaning i s \<noteq> [] \<and> length (general_cleaning i s) \<le> 60)"
proof -
  define x where "x = join ''_'' (filter (\<lambda>p. p \<noteq> []) (split_on CHR ''_'' []
    (replace CHR ''&'' ''and'' (replace CHR ''!'' [] (replace CHR ''?'' []
    (replace (CHR 0x27) [] (replace (CHR 0x22) [] (replace (CHR 0x0D) ''_''
    (replace (CHR 0x0A) ''_''
    (replace CHR '']'' [] (replace CHR ''['' [] (replace CHR '')'' [] (replace CHR ''('' []
    (replace CHR '' '' ''_'' (replace CHR ''-'' ''_'' (replace CHR ''/'' ''_'' s))))))))))))))))"
  define c where "c = (if length x > 60 then take 60 x else x)"
  have g: "general_cleaning i s = (if c = [] \<or> c = ''_'' then ''column_'' @ str_nat i else c)"
    unfolding general_cleaning_def Let_def c_def x_def by (rule refl)
  have "length c \<le> 60" by (simp add: c_def)
  then show ?thesis unfolding g by simp
qed

lemma general_cleaning_nonempty: "general_cleaning i s \<noteq> []"
  using general_cleaning_cases [of i s] by auto

lemma general_cleaning_length: "length (general_cleaning i s) \<le> max 60 (12 + length (str_nat i))"
  using general_cleaning_cases [of i s] by auto

lemma header_lower_of_str: "header_lower_of header = lower (header_str_of header)"
  by (simp add: header_lower_of_def header_str_of_def)

lemma clean_name_of_rules:
  "clean_name_of i used header =
     (if \<not> notna header \<or> strip (str_cell header) = [] then ''column_'' @ str_nat i
      else if str_in ''id'' (header_lower_of header)
              \<and> (str_in ''change'' (header_lower_of header)
                   \<or> str_in ''delete'' (header_lower_of header)
                   \<or> str_in ''add'' (header_lower_of header))
        then ''project_id''
      else if header_lower_of header = ''company'' then ''company''
      else if header_lower_of header = ''region'' then ''region''
      else if header_lower_of header = ''plant'' then ''plant''
      else if header_lower_of header = ''customer'' then ''customer''
      else if str_in ''cost center'' (header_lower_of header)
        then (if ''cost_center'' \<notin> set used then ''cost_center''
              else ''cost_center_'' @ str_nat i)
      else if str_in ''description'' (header_lower_of header)
        then (if ''description'' \<notin> set used then ''description''
              else ''description_'' @ str_nat i)
      else if str_in ''investment'' (header_lower_of header)
              \<and> str_in ''category'' (header_lower_of header)
        then ''investment_category''
      else if str_in ''budget'' (header_lower_of header)
              \<or> str_in ''total'' (header_lower_of header)
        then ''budget_'' @ str_nat i
      else if str_in ''april'' (header_lower_of header)
              \<and> str_in ''2025'' (header_lower_of header)
        then ''april_2025''
      else if str_in ''may'' (header_lower_of header) \<and> str_in ''2025'' (header_lower_of header)
        then ''may_2025''
      else general_cleaning i (header_str_of header))"
  unfolding clean_name_of_def Let_def header_lower_of_def header_str_of_def by (rule refl)

lemma if_nonempty: "a \<noteq> [] \<Longrightarrow> b \<noteq> [] \<Longrightarrow> (if c then a else b) \<noteq> []"
  by simp

lemma if_length_le: "length a \<le> n \<Longrightarrow> length b \<le> n \<Longrightarrow> length (if c then a else b) \<le> n"
  by simp

lemma clean_name_of_nonempty: "clean_name_of i used header \<noteq> []"
  unfolding clean_name_of_rules
  by (intro if_nonempty) (simp_all add: general_cleaning_nonempty)

lemma clean_name_of_length:
  "length (clean_name_of i used header) \<le> max 60 (12 + length (str_nat i))"
  unfolding clean_name_of_rules
  by (intro if_length_le general_cleaning_length) (simp_all add: le_max_iff_disj)

lemma lower_nonempty: "s \<noteq> [] \<Longrightarrow> lower s \<noteq> []"
  by (simp add: lower_def)

lemma final_name_of_fresh: "final_name_of i used header \<notin> set used"
  unfolding final_name_of_def by (rule unique_name_fresh)

lemma final_name_of_nonempty: "final_name_of i used header \<noteq> []"
proof -
  have "lower (clean_name_of i used header) \<noteq> []"
    by (intro lower_nonempty clean_name_of_nonempty)
  then show ?thesis
    unfolding final_name_of_def
    using unique_name_form [of "lower (clean_name_of i used header)" used
        "lower (clean_name_of i used header)" 1]
    by auto
qed

lemma final_name_of_form:
  "\<exists>c. length c \<le> max 60 (12 + length (str_nat i))
       \<and> (final_name_of i used header = lower c
            \<or> (\<exists>k. final_name_of i used header = lower c @ ''_'' @ str_nat k))"
proof -
  let ?c = "clean_name_of i used header"
  have "length ?c \<le> max 60 (12 + length (str_nat i))"
    by (rule clean_name_of_length)
  moreover have "final_name_of i used header = lower ?c
                 \<or> (\<exists>k. final_name_of i used header = lower ?c @ ''_'' @ str_nat k)"
    unfolding final_name_of_def by (rule unique_name_form)
  ultimately show ?thesis by blast
qed

lemma headers_loop_names:
  "headers_loop (zip [k ..< k + length hs] hs) used cleaned = cleaned @ names_from k hs used"
proof (induction hs arbitrary: k used cleaned)
  case Nil
  then show ?case by simp
next
  case (Cons h hs)
  have "[k ..< k + length (h # hs)] = k # [Suc k ..< Suc k + length hs]"
    using upt_conv_Cons [of k "k + length (h # hs)"] by simp
  then show ?case
    using Cons.IH [of "Suc k"] by (simp add: Let_def final_name_of_def)
qed

lemma length_names_from: "length (names_from k hs used) = length hs"
  by (induction hs arbitrary: k used) simp_all

lemma names_from_fresh: "set (names_from k hs used) \<inter> set used = {}"
proof (induction hs arbitrary: k used)
  case Nil
  then show ?case by simp
next
  case (Cons h hs)
  from Cons.IH [of "Suc k" "final_name_of k used h # used"]
  show ?case using final_name_of_fresh [of k used h] by auto
qed

lemma distinct_names_from: "distinct (names_from k hs used)"
proof (induction hs arbitrary: k used)
  case Nil
  then show ?case by simp
next
  case (Cons h hs)
  from names_from_fresh [of "Suc k" hs "final_name_of k used h # used"]
  have "final_name_of k used h \<notin> set (names_from (Suc k) hs (final_name_of k used h # used))"
    by auto
  with Cons.IH show ?case by simp
qed

lemma names_from_nth:
  "j < length hs \<Longrightarrow>
   names_from k hs used ! j
     = final_name_of (k + j) (rev (take j (names_from k hs used)) @ used) (hs ! j)"
proof (induction hs arbitrary: k used j)
  case Nil
  then show ?case by simp
next
  case (Cons h hs)
  show ?case
  proof (cases j)
    case 0
    then show ?thesis by simp
  next
    case (Suc j')
    with Cons.prems have "j' < length hs" by simp
    from Cons.IH [OF this, of "Suc k" "final_name_of k used h # used"] Suc
    show ?thesis by simp
  qed
qed

lemma careful_headers_names: "careful_headers headers = names_from 0 headers []"
proof -
  have l: "headers_loop (enumerate_list headers) [] [] = names_from 0 headers []"
    using headers_loop_names [of 0 headers "[]" "[]"] by (simp add: enumerate_list_def)
  have "length (names_from 0 headers []) = card (set (names_from 0 headers []))"
    using distinct_names_from [of 0 headers "[]"] by (simp add: distinct_card)
  then show ?thesis by (simp add: careful_headers_def l Let_def)
qed

text \<open>
  Claim C2, as amended. For every header row, the sequence of names has the length of the
  row, its entries are pairwise different and none is empty. The bound of 60 characters
  holds for the clean name of a column only (for a column index of more than 48 digits:
  12 characters and the digits of the index): every entry is the lower-cased form of such
  a clean name, either alone or followed by an underscore and the counter of the
  de-duplication. The cap comes before the lower-casing and before the counter, so the
  entry itself has no bound of 60.
\<close>

theorem header_naming:
  "length (careful_headers headers) = length headers
   \<and> distinct (careful_headers headers)
   \<and> (\<forall>name \<in> set (careful_headers headers). name \<noteq> [])
   \<and> (\<forall>i < length headers.
        \<exists>c. length c \<le> max 60 (12 + length (str_nat i))
           \<and> (careful_headers headers ! i = lower c
                \<or> (\<exists>k. careful_headers headers ! i = lower c @ ''_'' @ str_nat k)))"
proof (intro conjI ballI allI impI)
  show "length (careful_headers headers) = length headers"
    by (simp add: careful_headers_names length_names_from)
  show "distinct (careful_headers headers)"
    by (simp add: careful_headers_names distinct_names_from)
next
  fix name
  assume "name \<in> set (careful_headers headers)"
  then obtain j where j: "j < length headers" and n: "name = names_from 0 headers [] ! j"
    by (auto simp: careful_headers_names in_set_conv_nth length_names_from)
  from names_from_nth [OF j, of 0 "[]"] n show "name \<noteq> []"
    by (simp add: final_name_of_nonempty)
next
  fix i
  assume i: "i < length headers"
  from names_from_nth [OF i, of 0 "[]"]
  have "careful_headers headers ! i
        = final_name_of i (rev (take i (names_from 0 headers []))) (headers ! i)"
    by (simp add: careful_headers_names)
  with final_name_of_form [of i "rev (take i (names_from 0 headers []))" "headers ! i"]
  show "\<exists>c. length c \<le> max 60 (12 + length (str_nat i))
           \<and> (careful_headers headers ! i = lower c
                \<or> (\<exists>k. careful_headers headers ! i = lower c @ ''_'' @ str_nat k))"
    by simp
qed

theorem header_naming_witness:
  "careful_headers [Text ''Company'', NA, Text ''Company'']
     = [''company'', ''column_1'', ''company_1'']
   \<and> length (careful_headers [Text ''Company'', NA, Text ''Company'']) = 3
   \<and> distinct (careful_headers [Text ''Company'', NA, Text ''Company''])
   \<and> careful_headers [Text ''Company'', NA, Text ''Company''] ! 1 \<noteq> []"
proof -
  have e: "careful_headers [Text ''Company'', NA, Text ''Company'']
           = [''company'', ''column_1'', ''company_1'']"
    by code_simp
  from header_naming [of "[Text ''Company'', NA, Text ''Company'']"] e
  show ?thesis by simp
qed

text \<open>
  The claim as stated fails in its bound: two header cells with the same text of 60
  letters give a second name of 62 characters.
\<close>

theorem header_naming_counterexample:
  "careful_headers [Text (replicate 60 CHR ''a''), Text (replicate 60 CHR ''a'')]
     = [replicate 60 CHR ''a'', replicate 60 CHR ''a'' @ ''_1'']
   \<and> length (careful_headers [Text (replicate 60 CHR ''a''), Text (replicate 60 CHR ''a'')] ! 1)
       = 62"
  by code_simp

subsection \<open>The month rules\<close>

lemma lower_month_tokens: "lower ''april_2025'' = ''april_2025''" "lower ''may_2025'' = ''may_2025''"
  by (simp_all add: lower_def lower_char_def)

lemma final_name_of_clean:
  assumes "clean_name_of i used header = name" and "lower name = name"
  shows "(name \<notin> set used \<longrightarrow> final_name_of i used header = name)
         \<and> (final_name_of i used header = name
             \<or> (\<exists>k. final_name_of i used header = name @ ''_'' @ str_nat k))"
  unfolding final_name_of_def assms
  using unique_name_form [of name used name 1] by (simp add: unique_name_unused)

lemma clean_name_of_april:
  assumes "notna header" and "strip (str_cell header) \<noteq> []"
    and "\<not> earlier_rule (header_lower_of header)"
    and "str_in ''2025'' (header_lower_of header)" and "str_in ''april'' (header_lower_of header)"
  shows "clean_name_of i used header = ''april_2025''"
  using assms unfolding clean_name_of_rules earlier_rule_def by (simp only: de_Morgan_disj if_False if_True simp_thms)

lemma clean_name_of_may:
  assumes "notna header" and "strip (str_cell header) \<noteq> []"
    and "\<not> earlier_rule (header_lower_of header)"
    and "str_in ''2025'' (header_lower_of header)" and "\<not> str_in ''april'' (header_lower_of header)"
    and "str_in ''may'' (header_lower_of header)"
  shows "clean_name_of i used header = ''may_2025''"
  using assms unfolding clean_name_of_rules earlier_rule_def by (simp only: de_Morgan_disj if_False if_True simp_thms)

lemma careful_headers_nth:
  assumes "i < length headers"
  shows "careful_headers headers ! i
         = final_name_of i (rev (take i (careful_headers headers))) (headers ! i)"
  using names_from_nth [OF assms, of 0 "[]"] by (simp add: careful_headers_names)

text \<open>
  Claim C9, as amended. For every header cell that is not blank, whose normalised
  lower-cased text contains \<open>2025\<close> and matches none of the rules that come first (the
  identifier rule, the exact names \<open>company\<close>, \<open>region\<close>, \<open>plant\<close>, \<open>customer\<close>, the
  substrings \<open>cost center\<close>, \<open>description\<close>, \<open>investment\<close> with \<open>category\<close>, \<open>budget\<close> or
  \<open>total\<close>): if the text contains \<open>april\<close>, the name is \<open>april_2025\<close> when no earlier
  column has that name, and otherwise \<open>april_2025\<close> followed by an underscore and a counter;
  if it contains \<open>may\<close> and not \<open>april\<close>, the same holds with \<open>may_2025\<close>. No other month
  and no other year has a rule.
\<close>

theorem month_year_header:
  assumes "i < length headers"
    and "notna (headers ! i)" and "strip (str_cell (headers ! i)) \<noteq> []"
    and "\<not> earlier_rule (header_lower_of (headers ! i))"
    and "str_in ''2025'' (header_lower_of (headers ! i))"
  shows "(str_in ''april'' (header_lower_of (headers ! i)) \<longrightarrow>
            (''april_2025'' \<notin> set (take i (careful_headers headers))
               \<longrightarrow> careful_headers headers ! i = ''april_2025'')
            \<and> (careful_headers headers ! i = ''april_2025''
                \<or> (\<exists>k. careful_headers headers ! i = ''april_2025'' @ ''_'' @ str_nat k)))
         \<and> (\<not> str_in ''april'' (header_lower_of (headers ! i))
              \<and> str_in ''may'' (header_lower_of (headers ! i)) \<longrightarrow>
            (''may_2025'' \<notin> set (take i (careful_headers headers))
               \<longrightarrow> careful_headers headers ! i = ''may_2025'')
            \<and> (careful_headers headers ! i = ''may_2025''
                \<or> (\<exists>k. careful_headers headers ! i = ''may_2025'' @ ''_'' @ str_nat k)))"
proof (intro conjI impI)
  let ?used = "rev (take i (careful_headers headers))"
  note nth = careful_headers_nth [OF assms(1)]
  {
    assume a: "str_in ''april'' (header_lower_of (headers ! i))"
    have c: "clean_name_of i ?used (headers ! i) = ''april_2025''"
      using assms(2-5) a by (rule clean_name_of_april)
    note f = final_name_of_clean [OF c lower_month_tokens(1)]
    {
      assume "''april_2025'' \<notin> set (take i (careful_headers headers))"
      then have "''april_2025'' \<notin> set ?used" by simp
      with f show "careful_headers headers ! i = ''april_2025''" unfolding nth by blast
    }
    from f show "careful_headers headers ! i = ''april_2025''
         \<or> (\<exists>k. careful_headers headers ! i = ''april_2025'' @ ''_'' @ str_nat k)"
      unfolding nth by blast
  }
  {
    assume a: "\<not> str_in ''april'' (header_lower_of (headers ! i))
               \<and> str_in ''may'' (header_lower_of (headers ! i))"
    have c: "clean_name_of i ?used (headers ! i) = ''may_2025''"
      using assms(2-5) a by (intro clean_name_of_may) simp_all
    note f = final_name_of_clean [OF c lower_month_tokens(2)]
    {
      assume "''may_2025'' \<notin> set (take i (careful_headers headers))"
      then have "''may_2025'' \<notin> set ?used" by simp
      with f show "careful_headers headers ! i = ''may_2025''" unfolding nth by blast
    }
    from f show "careful_headers headers ! i = ''may_2025''
         \<or> (\<exists>k. careful_headers headers ! i = ''may_2025'' @ ''_'' @ str_nat k)"
      unfolding nth by blast
  }
qed

text \<open>
  The claim as stated fails on a header with a month and a year that an earlier rule
  matches, and on a month without a rule: \<open>April 2025 budget\<close> is named by the budget
  rule, and \<open>2025 June\<close> by the generic cleaning, which keeps the order of the words.
\<close>

theorem month_year_header_counterexample:
  "str_in ''april'' (header_lower_of (Text ''April 2025 budget''))
   \<and> str_in ''2025'' (header_lower_of (Text ''April 2025 budget''))
   \<and> careful_headers [Text ''April 2025 budget''] = [''budget_0'']
   \<and> str_in ''june'' (header_lower_of (Text ''2025 June''))
   \<and> str_in ''2025'' (header_lower_of (Text ''2025 June''))
   \<and> careful_headers [Text ''2025 June''] = [''2025_june'']"
  by code_simp

theorem month_year_header_witness:
  "careful_headers [Text ''Company'', Text ''Plan April 2025'', Text ''May-2025''] ! 1
     = ''april_2025''
   \<and> careful_headers [Text ''Company'', Text ''Plan April 2025'', Text ''May-2025''] ! 2
     = ''may_2025''"
proof -
  let ?hs = "[Text ''Company'', Text ''Plan April 2025'', Text ''May-2025'']"
  have a1: "1 < length ?hs" and a2: "notna (?hs ! 1)"
    and a3: "strip (str_cell (?hs ! 1)) \<noteq> []"
    and a4: "\<not> earlier_rule (header_lower_of (?hs ! 1))"
    and a5: "str_in ''2025'' (header_lower_of (?hs ! 1))"
    and a6: "str_in ''april'' (header_lower_of (?hs ! 1))"
    and a7: "''april_2025'' \<notin> set (take 1 (careful_headers ?hs))"
    by code_simp+
  have m1: "2 < length ?hs" and m2: "notna (?hs ! 2)"
    and m3: "strip (str_cell (?hs ! 2)) \<noteq> []"
    and m4: "\<not> earlier_rule (header_lower_of (?hs ! 2))"
    and m5: "str_in ''2025'' (header_lower_of (?hs ! 2))"
    and m6: "\<not> str_in ''april'' (header_lower_of (?hs ! 2))
             \<and> str_in ''may'' (header_lower_of (?hs ! 2))"
    and m7: "''may_2025'' \<notin> set (take 2 (careful_headers ?hs))"
    by code_simp+
  from month_year_header [OF a1 a2 a3 a4 a5] a6 a7
  have "careful_headers ?hs ! 1 = ''april_2025''" by blast
  moreover from month_year_header [OF m1 m2 m3 m4 m5] m6 m7
  have "careful_headers ?hs ! 2 = ''may_2025''" by blast
  ultimately show ?thesis by simp
qed

subsection \<open>Boundary detection\<close>

lemma scan_header_find: "scan_header rs is = find (\<lambda>i. header_score (rs ! i) \<ge> 4) is"
  by (induction "is") simp_all

lemma scan_header_Some:
  assumes "scan_header rs [0 ..< n] = Some h"
  shows "h < n \<and> header_score (rs ! h) \<ge> 4 \<and> (\<forall>j < h. header_score (rs ! j) < 4)"
proof -
  from assms obtain k where k: "k < n" "header_score (rs ! ([0 ..< n] ! k)) \<ge> 4"
    "h = [0 ..< n] ! k" "\<forall>j < k. \<not> header_score (rs ! ([0 ..< n] ! j)) \<ge> 4"
    unfolding scan_header_find find_Some_iff by auto
  then have "h = k" by simp
  with k show ?thesis by (auto simp: not_le)
qed

lemma scan_header_None:
  assumes "scan_header rs [0 ..< n] = None"
  shows "\<forall>j < n. header_score (rs ! j) < 4"
  using assms unfolding scan_header_find find_None_iff by (auto simp: not_le)

lemma density_inv_step:
  assumes "density_inv df k m h"
  shows "density_inv df (Suc k)
           (if density df k > m \<and> density df k > 3 / 10 then density df k else m)
           (if density df k > m \<and> density df k > 3 / 10 then Some k else h)"
proof (cases h)
  case None
  with assms have m: "m = 0" and a: "\<forall>j < k. density df j \<le> 3 / 10"
    by (simp_all add: density_inv_def)
  show ?thesis
  proof (cases "density df k > 3 / 10")
    case True
    then have "density df k > m" using m by simp
    moreover have "\<forall>j < Suc k. density df j \<le> density df k"
      using a True by (auto simp: less_Suc_eq intro: order.trans less_imp_le)
    moreover have "\<forall>j < k. density df j < density df k"
      using a True by (auto intro: le_less_trans)
    ultimately show ?thesis using True by (simp add: density_inv_def)
  next
    case False
    then have "\<forall>j < Suc k. density df j \<le> 3 / 10"
      using a by (auto simp: less_Suc_eq not_less)
    with False None m show ?thesis by (simp add: density_inv_def)
  qed
next
  case (Some i)
  with assms have i: "i < k" "m = density df i" "density df i > 3 / 10"
    and a: "\<forall>j < k. density df j \<le> density df i" and b: "\<forall>j < i. density df j < density df i"
    by (simp_all add: density_inv_def)
  show ?thesis
  proof (cases "density df k > m")
    case True
    then have g: "density df k > 3 / 10" using i by simp
    have "\<forall>j < Suc k. density df j \<le> density df k"
      using a True i(2) by (auto simp: less_Suc_eq intro: order.trans less_imp_le)
    moreover have "\<forall>j < k. density df j < density df k"
      using a True i(2) by (auto intro: le_less_trans)
    ultimately show ?thesis using True g by (simp add: density_inv_def)
  next
    case False
    then have "\<forall>j < Suc k. density df j \<le> density df i"
      using a i(2) by (auto simp: less_Suc_eq not_less)
    with False Some i b show ?thesis by (simp add: density_inv_def)
  qed
qed

lemma density_loop_upt:
  assumes "ncols df > 0"
  shows "k \<le> n \<Longrightarrow> density_inv df k m h \<Longrightarrow>
         \<exists>m' h'. density_loop df [k ..< n] m h = Inr (m', h') \<and> density_inv df n m' h'"
proof (induction "n - k" arbitrary: k m h)
  case 0
  then show ?case by simp
next
  case (Suc d)
  then have u: "[k ..< n] = k # [Suc k ..< n]" and d: "d = n - Suc k" and le: "Suc k \<le> n"
    by (simp_all add: upt_conv_Cons)
  let ?c = "density df k > m \<and> density df k > 3 / 10"
  from Suc.hyps(1) [OF d le density_inv_step [OF Suc.prems(2)]]
  obtain m' h' where
    "density_loop df [Suc k ..< n] (if ?c then density df k else m) (if ?c then Some k else h)
       = Inr (m', h')" and "density_inv df n m' h'"
    by blast
  then show ?case
    unfolding u using assms by (auto simp: Let_def density_def)
qed

lemma skip_instructions_upt:
  "a \<le> b \<Longrightarrow>
   a \<le> skip_instructions rs [a ..< b] a \<and> skip_instructions rs [a ..< b] a \<le> b
   \<and> (\<forall>j. a \<le> j \<and> j < skip_instructions rs [a ..< b] a \<longrightarrow> is_instruction_row (rs ! j))
   \<and> (skip_instructions rs [a ..< b] a < b
        \<longrightarrow> \<not> is_instruction_row (rs ! skip_instructions rs [a ..< b] a))"
proof (induction "b - a" arbitrary: a)
  case 0
  then show ?case by auto
next
  case (Suc d)
  then have u: "[a ..< b] = a # [Suc a ..< b]" and d: "d = b - Suc a" and le: "Suc a \<le> b"
    by (simp_all add: upt_conv_Cons)
  show ?case
  proof (cases "is_instruction_row (rs ! a)")
    case True
    then have e: "skip_instructions rs [a ..< b] a = skip_instructions rs [Suc a ..< b] (Suc a)"
      unfolding u by simp
    let ?r = "skip_instructions rs [Suc a ..< b] (Suc a)"
    from Suc.hyps(1) [OF d le]
    have r: "Suc a \<le> ?r" "?r \<le> b"
      "\<forall>j. Suc a \<le> j \<and> j < ?r \<longrightarrow> is_instruction_row (rs ! j)"
      "?r < b \<longrightarrow> \<not> is_instruction_row (rs ! ?r)"
      by simp_all
    have "is_instruction_row (rs ! j)" if "a \<le> j" and "j < ?r" for j
    proof (cases "j = a")
      case True
      with \<open>is_instruction_row (rs ! a)\<close> show ?thesis by simp
    next
      case False
      with that have "Suc a \<le> j" by simp
      with r(3) that show ?thesis by simp
    qed
    with r show ?thesis unfolding e by auto
  next
    case False
    then have "skip_instructions rs [a ..< b] a = a" unfolding u by simp
    with False le show ?thesis by auto
  qed
qed


lemma find_data_start_spec: "data_start_spec df h (find_data_start df h)"
proof -
  let ?b = "max (h + 1) (min (h + 1 + 10) (length (rws df)))"
  have e: "[h + 1 ..< min (h + 1 + 10) (length (rws df))] = [h + 1 ..< ?b]"
    by (cases "h + 1 \<le> min (h + 1 + 10) (length (rws df))") (simp_all add: max_def)
  have le: "h + 1 \<le> ?b" by simp
  from skip_instructions_upt [OF le, of "rws df"]
  show ?thesis
    unfolding data_start_spec_def find_data_start_def Let_def e
    by (auto simp: max_def min_def split: if_splits)
qed

text \<open>
  On a frame with at least one column \<open>find_data_boundaries\<close> returns a pair, and the pair is
  the one that the specification describes.
\<close>

lemma boundaries_with_columns:
  assumes "ncols df > 0"
  shows "\<exists>h d. find_data_boundaries df = Inr (h, d)
               \<and> header_row_spec df h \<and> data_start_spec df h d"
proof (cases "scan_header (rws df) [0 ..< min 25 (length (rws df))]")
  case (Some h)
  from scan_header_Some [OF Some]
  have "header_row_spec df h" by (auto simp: header_row_spec_def Let_def)
  moreover have "find_data_boundaries df = Inr (h, find_data_start df h)"
    by (simp add: find_data_boundaries_def Some)
  ultimately show ?thesis using find_data_start_spec by blast
next
  case None
  from scan_header_None [OF None]
  have no: "\<not> (\<exists>i \<in> {0 ..< min 25 (length (rws df))}. header_score (rws df ! i) \<ge> 4)"
    by (auto simp: not_le)
  have "density_inv df 0 0 None" by (simp add: density_inv_def)
  from density_loop_upt [OF assms _ this, of "min 15 (length (rws df))"]
  obtain m' h' where l: "density_loop df [0 ..< min 15 (length (rws df))] 0 None = Inr (m', h')"
    and inv: "density_inv df (min 15 (length (rws df))) m' h'"
    by auto
  show ?thesis
  proof (cases h')
    case None
    with inv have "\<not> (\<exists>i \<in> {0 ..< min 15 (length (rws df))}. density df i > 3 / 10)"
      by (auto simp: density_inv_def not_less)
    with no have "header_row_spec df 8" by (simp add: header_row_spec_def Let_def)
    moreover have "find_data_boundaries df = Inr (8, find_data_start df 8)"
      using \<open>scan_header (rws df) [0 ..< min 25 (length (rws df))] = None\<close> l None
      by (simp add: find_data_boundaries_def)
    ultimately show ?thesis using find_data_start_spec by blast
  next
    case (Some h)
    with inv have h: "h < min 15 (length (rws df))" "density df h > 3 / 10"
      "\<forall>j < min 15 (length (rws df)). density df j \<le> density df h"
      "\<forall>j < h. density df j < density df h"
      by (simp_all add: density_inv_def)
    then have "\<exists>i \<in> {0 ..< min 15 (length (rws df))}. density df i > 3 / 10" by auto
    with no h have "header_row_spec df h" by (simp add: header_row_spec_def Let_def)
    moreover have "find_data_boundaries df = Inr (h, find_data_start df h)"
      using \<open>scan_header (rws df) [0 ..< min 25 (length (rws df))] = None\<close> l Some
      by (simp add: find_data_boundaries_def)
    ultimately show ?thesis using find_data_start_spec by blast
  qed
qed

text \<open>A frame without rows gets the fallback pair, whatever its number of columns.\<close>

lemma boundaries_without_rows: "rws df = [] \<Longrightarrow> find_data_boundaries df = Inr (8, 9)"
  by (simp add: find_data_boundaries_def find_data_start_def)

text \<open>
  Claim C1 says that \<open>find_data_boundaries\<close> returns a pair for every sheet and never
  raises. The code on the frame of one row and no column, which has one cell per column in
  every row: no row scores 4, the density loop runs, and its division by the number of
  columns raises ZeroDivisionError.
\<close>

theorem boundaries_zero_columns:
  "wf_sheet \<lparr>ncols = 0, rws = [[]]\<rparr>
   \<and> find_data_boundaries \<lparr>ncols = 0, rws = [[]]\<rparr> = Inl ZeroDivisionError"
  by (simp add: wf_sheet_def find_data_boundaries_def header_score_def header_indicators_def
      row_text_def)

end
